theory Spec2Isabelle
  imports Complex_Main "HOL-Library.Sublist" "HOL-Library.Char_ord" "HOL-Library.List_Lexorder"
begin

text \<open>
  The scan, report and apply engine of the macOS disk cleaner: the safety checks, the
  directory walk, the report with its cache and the plan executor of \<open>server.js\<close>, and the
  deny-list and the plan reader of \<open>disk_cleaner.sh\<close>. The functions keep the names they have
  in the sources. The numbers of JavaScript are IEEE doubles: a size is the natural number
  the double holds, a time or a number of the query is the real it holds, and the arithmetic
  on them rounds as the engine does.
\<close>

section \<open>Path strings (Node's posix \<open>path\<close> module, as server.js uses it)\<close>

text \<open>
  Paths are strings. The server runs on macOS, so \<open>path.sep\<close> is the slash and the posix
  variants of \<open>path.join\<close>, \<open>path.resolve\<close> and \<open>path.basename\<close> apply. They are
  purely lexical: no symbolic link is resolved by them.
\<close>

fun split_on :: "char \<Rightarrow> string \<Rightarrow> string list" where
  "split_on d [] = [[]]"
| "split_on d (c # cs) =
     (if c = d then [] # split_on d cs
      else (case split_on d cs of [] \<Rightarrow> [[c]] | s # ss \<Rightarrow> (c # s) # ss))"

fun join_with :: "char \<Rightarrow> string list \<Rightarrow> string" where
  "join_with d [] = []"
| "join_with d [s] = s"
| "join_with d (s # t # ss) = s @ d # join_with d (t # ss)"

definition split_sep :: "string \<Rightarrow> string list" where
  "split_sep p = split_on (CHR ''/'') p"

definition join_sep :: "string list \<Rightarrow> string" where
  "join_sep segs = join_with (CHR ''/'') segs"

text \<open>
  \<open>normalizeString\<close>: empty segments and \<open>.\<close> are dropped, \<open>..\<close> removes the segment
  before it; above the root it is dropped (absolute path) or kept (\<open>allowAboveRoot\<close>).
  The accumulator holds the segments kept so far, last one first.
\<close>

fun normalizeSegs :: "bool \<Rightarrow> string list \<Rightarrow> string list \<Rightarrow> string list" where
  "normalizeSegs allowAboveRoot acc [] = rev acc"
| "normalizeSegs allowAboveRoot acc (s # ss) =
     (if s = [] \<or> s = ''.'' then normalizeSegs allowAboveRoot acc ss
      else if s = ''..'' then
        (case acc of
           a # as \<Rightarrow>
             (if a = ''..'' then normalizeSegs allowAboveRoot (''..'' # acc) ss
              else normalizeSegs allowAboveRoot as ss)
         | [] \<Rightarrow>
             (if allowAboveRoot then normalizeSegs allowAboveRoot [''..''] ss
              else normalizeSegs allowAboveRoot [] ss))
      else normalizeSegs allowAboveRoot (s # acc) ss)"

definition normalizeString :: "string \<Rightarrow> bool \<Rightarrow> string" where
  "normalizeString p allowAboveRoot = join_sep (normalizeSegs allowAboveRoot [] (split_sep p))"

definition isAbsolute :: "string \<Rightarrow> bool" where
  "isAbsolute p = (case p of [] \<Rightarrow> False | c # _ \<Rightarrow> c = CHR ''/'')"

text \<open>\<open>path.resolve(p)\<close> with one argument; \<open>cwd\<close> is \<open>process.cwd()\<close>. The loop of the
  library runs from the argument to the working directory, skips an empty string and stops
  at the first absolute one.\<close>

definition path_resolve :: "string \<Rightarrow> string \<Rightarrow> string" where
  "path_resolve cwd p =
     (let fromArg = (if p = [] then [] else p @ ''/'');
          resolvedPath = (if isAbsolute p \<or> cwd = [] then fromArg else cwd @ ''/'' @ fromArg);
          resolvedAbsolute = (isAbsolute p \<or> isAbsolute cwd);
          n = normalizeString resolvedPath (\<not> resolvedAbsolute)
      in if resolvedAbsolute then CHR ''/'' # n
         else if n \<noteq> [] then n else ''.'')"

text \<open>\<open>path.normalize\<close> and \<open>path.join\<close> (empty arguments are skipped).\<close>

definition path_normalize :: "string \<Rightarrow> string" where
  "path_normalize p =
     (if p = [] then ''.''
      else
        (let trailingSeparator = (last p = CHR ''/'');
             n = normalizeString p (\<not> isAbsolute p)
         in if n = [] then
              (if isAbsolute p then ''/'' else if trailingSeparator then ''./'' else ''.'')
            else
              (let n' = (if trailingSeparator then n @ ''/'' else n)
               in if isAbsolute p then CHR ''/'' # n' else n')))"

definition path_join :: "string list \<Rightarrow> string" where
  "path_join args =
     (let joined = join_sep (filter (\<lambda>a. a \<noteq> []) args)
      in if joined = [] then ''.'' else path_normalize joined)"

text \<open>\<open>path.basename(p)\<close>: the last segment, trailing slashes ignored.\<close>

definition path_basename :: "string \<Rightarrow> string" where
  "path_basename p =
     (let stripped = rev (dropWhile (\<lambda>c. c = CHR ''/'') (rev p))
      in rev (takeWhile (\<lambda>c. c \<noteq> CHR ''/'') (rev stripped)))"

text \<open>\<open>String.prototype.startsWith\<close> is \<^const>\<open>prefix\<close>. A regular expression that is a
  fixed string matches when the string occurs somewhere.\<close>

fun includes_str :: "string \<Rightarrow> string \<Rightarrow> bool" where
  "includes_str pat [] = (pat = [])"
| "includes_str pat (c # cs) = (prefix pat (c # cs) \<or> includes_str pat cs)"

section \<open>SafetyPolicy (server.js)\<close>

text \<open>
  \<open>HOME\<close> is \<open>os.homedir()\<close>, read once when the server starts; \<open>cwd\<close> is the working
  directory \<open>path.resolve\<close> falls back on for a relative path.
\<close>

record config =
  HOME :: string
  cwd :: string

text \<open>The regular expression \<open>/\.photoslibrary[\/\\]/\<close>: the literal text followed by a slash
  or a backslash, anywhere in the string.\<close>

definition matches_photoslibrary :: "string \<Rightarrow> bool" where
  "matches_photoslibrary s =
     (includes_str ''.photoslibrary/'' s \<or> includes_str (''.photoslibrary'' @ [CHR 0x5C]) s)"

definition isDenyListed :: "config \<Rightarrow> string \<Rightarrow> bool" where
  "isDenyListed cfg p =
     (let pics = path_join [HOME cfg, ''Pictures''];
          mail = path_join [HOME cfg, ''Library'', ''Mail''];
          icloudDocs = path_join [HOME cfg, ''Library'', ''Mobile Documents''];
          desktop = path_join [HOME cfg, ''Desktop''];
          documents = path_join [HOME cfg, ''Documents''];
          normalized = path_resolve (cwd cfg) p
      in if prefix (path_resolve (cwd cfg) pics) normalized then True
         else if matches_photoslibrary normalized then True
         else if prefix (path_resolve (cwd cfg) mail) normalized then True
         else if prefix (path_resolve (cwd cfg) icloudDocs) normalized then True
         else if prefix (path_resolve (cwd cfg) desktop) normalized then True
         else if prefix (path_resolve (cwd cfg) documents) normalized then True
         else False)"

definition ensureHomeScoped :: "config \<Rightarrow> string \<Rightarrow> bool" where
  "ensureHomeScoped cfg p =
     (let normalized = path_resolve (cwd cfg) p
      in prefix (path_resolve (cwd cfg) (HOME cfg) @ ''/'') normalized)"

subsection \<open>The deny-list in the specification's words\<close>

text \<open>
  A path falls under a subtree at a path-segment boundary when it is the subtree's root or
  continues it after a separator. The deny-listed subtrees are Pictures, Library/Mail,
  Library/Mobile Documents, Desktop and Documents under the home root, and every
  photo-library bundle (a directory named \<open>*.photoslibrary\<close>). This definition follows the
  specification, not the code; the theorems compare \<^const>\<open>isDenyListed\<close> with it.
\<close>

definition in_subtree :: "string \<Rightarrow> string \<Rightarrow> bool" where
  "in_subtree tree p = (p = tree \<or> prefix (tree @ ''/'') p)"

definition spec_deny_roots :: "config \<Rightarrow> string list" where
  "spec_deny_roots cfg =
     map (\<lambda>segs. path_resolve (cwd cfg) (path_join (HOME cfg # segs)))
       [[''Pictures''], [''Library'', ''Mail''], [''Library'', ''Mobile Documents''],
        [''Desktop''], [''Documents'']]"

definition spec_isDenyListed :: "config \<Rightarrow> string \<Rightarrow> bool" where
  "spec_isDenyListed cfg p =
     (let normalized = path_resolve (cwd cfg) p
      in list_ex (\<lambda>tree. in_subtree tree normalized) (spec_deny_roots cfg)
         \<or> includes_str ''.photoslibrary/'' normalized)"

definition spec_isInHomeScope :: "config \<Rightarrow> string \<Rightarrow> bool" where
  "spec_isInHomeScope cfg p =
     (let normalized = path_resolve (cwd cfg) p; home = path_resolve (cwd cfg) (HOME cfg)
      in in_subtree home normalized \<and> normalized \<noteq> home)"

section \<open>SafetyPolicy (disk\_cleaner.sh)\<close>

text \<open>
  The shell script matches the path against \<open>case\<close> patterns. \<open>"$HOME_DIR"\<close> is quoted and
  so literal; an unquoted \<open>*\<close> matches any string, slashes included. The pattern
  \<open>"$HOME_DIR"/*Photos*.photoslibrary/*\<close> is: the home prefix, then somewhere \<open>Photos\<close>, and
  after it somewhere \<open>.photoslibrary/\<close>.
\<close>

fun after_first :: "string \<Rightarrow> string \<Rightarrow> string option" where
  "after_first pat [] = (if pat = [] then Some [] else None)"
| "after_first pat (c # cs) =
     (if prefix pat (c # cs) then Some (drop (length pat) (c # cs)) else after_first pat cs)"

definition ensure_home_scope :: "string \<Rightarrow> string \<Rightarrow> bool" where
  "ensure_home_scope home_dir p = prefix (home_dir @ ''/'') p"

definition deny_listed :: "string \<Rightarrow> string \<Rightarrow> bool" where
  "deny_listed home_dir p =
     (if prefix (home_dir @ ''/Pictures/'') p then True
      else if prefix (home_dir @ ''/'') p \<and>
              (case after_first ''Photos'' (drop (length home_dir + 1) p) of
                 None \<Rightarrow> False
               | Some rest \<Rightarrow> includes_str ''.photoslibrary/'' rest) then True
      else if prefix (home_dir @ ''/Library/Mail/'') p then True
      else if prefix (home_dir @ ''/Library/Mobile Documents/'') p then True
      else if prefix (home_dir @ ''/Desktop/'') p then True
      else if prefix (home_dir @ ''/Documents/'') p then True
      else False)"

section \<open>The platform: the file system and the built-ins the server calls\<close>

text \<open>
  The file system is a state of some type \<open>'fs\<close>; what Node's \<open>fs\<close> module, the brew
  executable and the JavaScript built-ins answer is a parameter of every function below, so
  that the theorems hold whatever the operating system does. A read that throws returns
  \<open>None\<close>. A call that changes the file system returns the error's text when it throws
  (\<open>None\<close> when it succeeds) together with the state it leaves, which after a failure
  need not be the state it found.
\<close>

datatype ftype = RegularFile | Directory | SymbolicLink | OtherType

record stats =
  st_type :: ftype
  st_size :: nat
  st_mtimeMs :: real

record dirent =
  d_name :: string
  d_type :: ftype

datatype json =
  JNull | JBool bool | JNum real | JStr string | JArr "json list" | JObj "(string \<times> json) list"

record 'fs platform =
  readdir :: "'fs \<Rightarrow> string \<Rightarrow> dirent list option"
  lstat :: "'fs \<Rightarrow> string \<Rightarrow> stats option"
  statSync :: "'fs \<Rightarrow> string \<Rightarrow> stats option"
  existsSync :: "'fs \<Rightarrow> string \<Rightarrow> bool"
  access :: "'fs \<Rightarrow> string \<Rightarrow> bool"
  mkdirSync :: "'fs \<Rightarrow> string \<Rightarrow> string option \<times> 'fs"
  renameSync :: "'fs \<Rightarrow> string \<Rightarrow> string \<Rightarrow> string option \<times> 'fs"
  rmSync :: "'fs \<Rightarrow> string \<Rightarrow> bool \<Rightarrow> string option \<times> 'fs"
  execBrewCache :: "'fs \<Rightarrow> string \<Rightarrow> string option"
  finiteNumber :: "string \<Rightarrow> real option"
  numberToString :: "real \<Rightarrow> string"
  JSON_parse :: "string \<Rightarrow> json option"
  js_sub :: "real \<Rightarrow> real \<Rightarrow> real"
  js_mul :: "real \<Rightarrow> real \<Rightarrow> real"
  js_div :: "real \<Rightarrow> real \<Rightarrow> real"

text \<open>
  \<open>finiteNumber s\<close> is \<open>Number(s)\<close> when that is finite, \<open>None\<close> when it is \<open>NaN\<close> or
  infinite. \<open>js_sub\<close>, \<open>js_mul\<close> and \<open>js_div\<close> are the operators \<open>-\<close>, \<open>*\<close> and \<open>/\<close> on
  doubles: the exact result rounded to the nearest double, which is the exact result only
  when that is a double itself (as for integers below \<open>2^53\<close>). A product that overflows is
  read as a real above every double. Comparisons of doubles are exact.

  The clock of one request: \<open>Date.now()\<close> and \<open>new Date().toISOString()\<close>. It is read as
  one instant for the whole request.
\<close>

record clock =
  now :: real
  nowIso :: string

text \<open>
  Sizes are doubles that hold natural numbers, and \<open>+\<close> on them gives the double nearest to
  the sum, a tie going to the even significand. Below \<open>2^53\<close> every natural number is a
  double; from there on the doubles are \<open>spacing\<close> apart, 2 up to \<open>2^54\<close>, 4 up to \<open>2^55\<close>
  and so on. (No sum of file sizes comes near the largest double.)
\<close>

function spacing :: "nat \<Rightarrow> nat" where
  "spacing n = (if n < 9007199254740992 then 1 else 2 * spacing (n div 2))"
  by pat_completeness auto
termination
  by (relation "measure (\<lambda>n. n)") auto

declare spacing.simps [simp del]

definition toDouble :: "nat \<Rightarrow> nat" where
  "toDouble n =
     (let u = spacing n; q = n div u; r = n mod u
      in if 2 * r < u then q * u
         else if u < 2 * r then (q + 1) * u
         else if even q then q * u
         else (q + 1) * u)"

definition js_plus :: "nat \<Rightarrow> nat \<Rightarrow> nat" where
  "js_plus a b = toDouble (a + b)"

text \<open>Strings are byte strings here, so \<open>trim\<close> removes ASCII white space and the
  order that sorts the category names is the order of the character codes.\<close>

definition is_space :: "char \<Rightarrow> bool" where
  "is_space c = (c = CHR '' '' \<or> c = CHR 0x09 \<or> c = CHR 0x0A \<or> c = CHR 0x0B
                 \<or> c = CHR 0x0C \<or> c = CHR 0x0D)"

definition trim :: "string \<Rightarrow> string" where
  "trim s = rev (dropWhile is_space (rev (dropWhile is_space s)))"

section \<open>Collector: \<open>walkCollect\<close>\<close>

record opts =
  minBytes :: real
  olderDays :: real

record item =
  path :: string
  bytes :: nat
  mtime :: int
  category :: string
  reason :: string
  trashable :: bool

text \<open>The object \<open>walkCollect\<close> pushes for an accepted file.\<close>

definition scanItem :: "'fs platform \<Rightarrow> string \<Rightarrow> stats \<Rightarrow> string \<Rightarrow> string \<Rightarrow> item" where
  "scanItem P full st rsn cat =
     \<lparr>path = full, bytes = st_size st, mtime = \<lfloor>js_div P (st_mtimeMs st) 1000\<rfloor>,
      category = cat, reason = rsn, trashable = True\<rparr>"

text \<open>
  One round of the \<open>for (const ent of ents)\<close> loop. The pending directories and the items
  pushed so far are the state; \<open>continue\<close> and the swallowed exception of \<open>lstat\<close> leave it
  as it is. The stack's top is the head of the list.
\<close>

definition visitEntry ::
  "'fs platform \<Rightarrow> config \<Rightarrow> clock \<Rightarrow> 'fs \<Rightarrow> opts \<Rightarrow> string \<Rightarrow> string \<Rightarrow> string \<Rightarrow>
   string list \<times> item list \<Rightarrow> dirent \<Rightarrow> string list \<times> item list" where
  "visitEntry P cfg clk fs opts rsn cat current acc ent =
     (let full = path_join [current, d_name ent]
      in if \<not> ensureHomeScoped cfg full \<or> isDenyListed cfg full then acc
         else
           (case lstat P fs full of
              None \<Rightarrow> acc
            | Some st \<Rightarrow>
                if st_type st = SymbolicLink then acc
                else if st_type st = Directory then (full # fst acc, snd acc)
                else if st_type st = RegularFile then
                  (let bytes = st_size st
                   in if minBytes opts \<noteq> 0 \<and> real bytes < minBytes opts then acc
                      else
                        (let mtimeMs = st_mtimeMs st
                         in if olderDays opts > 0
                               \<and> js_sub P (now clk) mtimeMs
                                   < js_mul P (js_mul P (olderDays opts) 86400) 1000 then acc
                            else (fst acc, snd acc @ [scanItem P full st rsn cat])))
                else acc))"

text \<open>
  The \<open>while (stack.length)\<close> loop. Nothing bounds the number of directories the platform
  may answer with, so the loop takes fuel: one unit per directory popped, \<open>None\<close> when it
  runs out.
\<close>

fun walkLoop ::
  "nat \<Rightarrow> 'fs platform \<Rightarrow> config \<Rightarrow> clock \<Rightarrow> 'fs \<Rightarrow> opts \<Rightarrow> string \<Rightarrow> string \<Rightarrow>
   string list \<Rightarrow> item list \<Rightarrow> item list option" where
  "walkLoop n P cfg clk fs opts rsn cat [] items = Some items"
| "walkLoop 0 P cfg clk fs opts rsn cat (current # stack) items = None"
| "walkLoop (Suc n) P cfg clk fs opts rsn cat (current # stack) items =
     (case readdir P fs current of
        None \<Rightarrow> walkLoop n P cfg clk fs opts rsn cat stack items
      | Some ents \<Rightarrow>
          (case foldl (visitEntry P cfg clk fs opts rsn cat current) (stack, items) ents of
             (stack', items') \<Rightarrow> walkLoop n P cfg clk fs opts rsn cat stack' items'))"

definition walkCollect ::
  "nat \<Rightarrow> 'fs platform \<Rightarrow> config \<Rightarrow> clock \<Rightarrow> 'fs \<Rightarrow> string \<Rightarrow> opts \<Rightarrow> item list \<Rightarrow>
   string \<Rightarrow> string \<Rightarrow> item list option" where
  "walkCollect n P cfg clk fs baseDir opts items rsn cat =
     walkLoop n P cfg clk fs opts rsn cat [baseDir] items"

text \<open>\<open>for (const d of dirs) if (fs.existsSync(d)) await walkCollect(d, ...)\<close>\<close>

fun walkEach ::
  "nat \<Rightarrow> 'fs platform \<Rightarrow> config \<Rightarrow> clock \<Rightarrow> 'fs \<Rightarrow> opts \<Rightarrow> string \<Rightarrow> string \<Rightarrow>
   string list \<Rightarrow> item list \<Rightarrow> item list option" where
  "walkEach n P cfg clk fs opts rsn cat [] items = Some items"
| "walkEach n P cfg clk fs opts rsn cat (d # ds) items =
     (if existsSync P fs d then
        (case walkCollect n P cfg clk fs d opts items rsn cat of
           None \<Rightarrow> None
         | Some items' \<Rightarrow> walkEach n P cfg clk fs opts rsn cat ds items')
      else walkEach n P cfg clk fs opts rsn cat ds items)"

definition listDirs :: "'fs platform \<Rightarrow> 'fs \<Rightarrow> string \<Rightarrow> string list" where
  "listDirs P fs dir =
     (case readdir P fs dir of
        None \<Rightarrow> []
      | Some ents \<Rightarrow> map (\<lambda>e. path_join [dir, d_name e]) (filter (\<lambda>e. d_type e = Directory) ents))"

section \<open>\<open>parseQuery\<close>\<close>

text \<open>
  \<open>url.parse(reqUrl, true).query\<close> maps a key to a string, to an array of strings when the
  key is repeated, or to nothing. \<open>Number\<close> of an array is \<open>Number\<close> of its elements joined
  by commas; \<open>Number(undefined)\<close> is \<open>NaN\<close>.
\<close>

datatype qval = QAbsent | QStr string | QArr "string list"

record query =
  minSize :: "real option"
  olderThan :: "real option"
  q_include :: "string list option"
  q_exclude :: "string list option"
  downloads :: bool
  dryRun :: bool
  mode :: string

definition queryNumber :: "'fs platform \<Rightarrow> qval \<Rightarrow> real option" where
  "queryNumber P v =
     (case v of
        QAbsent \<Rightarrow> None
      | QStr s \<Rightarrow> finiteNumber P s
      | QArr xs \<Rightarrow> finiteNumber P (join_with (CHR '','') xs))"

definition queryList :: "qval \<Rightarrow> string list option" where
  "queryList v =
     (case v of
        QStr s \<Rightarrow>
          (if trim s \<noteq> [] then Some (filter (\<lambda>x. x \<noteq> []) (map trim (split_on (CHR '','') s)))
           else None)
      | _ \<Rightarrow> None)"

definition parseQuery :: "'fs platform \<Rightarrow> (string \<Rightarrow> qval) \<Rightarrow> query" where
  "parseQuery P q =
     \<lparr>minSize = queryNumber P (q ''minSize''),
      olderThan = queryNumber P (q ''olderThan''),
      q_include = queryList (q ''include''),
      q_exclude = queryList (q ''exclude''),
      downloads = (q ''downloads'' = QStr ''1'' \<or> q ''downloads'' = QStr ''true''),
      dryRun = (q ''dryRun'' = QStr ''1'' \<or> q ''dryRun'' = QStr ''true''),
      mode = (if q ''mode'' = QStr ''delete'' then ''delete'' else ''trash'')\<rparr>"

section \<open>ReportBuilder and ScanCache: \<open>scanHandler\<close>\<close>

record totals =
  count :: nat
  bytes_sum :: nat

record report =
  generatedAt :: string
  home :: string
  totals :: totals
  categories :: "string list"
  items :: "item list"

definition DEFAULT_MIN_BYTES :: real where
  "DEFAULT_MIN_BYTES = 50 * 1024 * 1024"

definition DEFAULT_OLDER_DAYS :: real where
  "DEFAULT_OLDER_DAYS = 30"

definition SCAN_CACHE_TTL_MS :: real where
  "SCAN_CACHE_TTL_MS = 5 * 60 * 1000"

text \<open>
  The cache key is the JSON text of \<open>{minBytes, olderDays, cats: sorted, downloads}\<close>; two keys
  are the same text exactly when the four values agree, so the key is the tuple.
\<close>

type_synonym cacheKey = "real \<times> real \<times> string list \<times> bool"

type_synonym scanCache = "cacheKey \<Rightarrow> (real \<times> report) option"

definition effectiveCats :: "query \<Rightarrow> string list" where
  "effectiveCats q =
     (let cats0 = [''user-caches'', ''browsers'', ''dev'', ''pkg''];
          cats1 = (if downloads q then cats0 @ [''downloads''] else cats0);
          cats2 = (case q_include q of
                     Some inc \<Rightarrow> if inc \<noteq> [] then inc else cats1
                   | None \<Rightarrow> cats1)
      in case q_exclude q of
           Some exc \<Rightarrow> if exc \<noteq> [] then filter (\<lambda>c. c \<notin> set exc) cats2 else cats2
         | None \<Rightarrow> cats2)"

text \<open>
  The body of the \<open>try\<close> block: one stage per walk, in the order of the source, each run
  only when its category was asked for. A stage takes the items pushed so far and returns
  them with its own appended. No call in the block throws past its own \<open>catch\<close>, so the
  handler's \<open>catch\<close> (status 500) is never reached and is not modelled.
\<close>

definition brewPath :: "'fs platform \<Rightarrow> 'fs \<Rightarrow> string option" where
  "brewPath P fs =
     (if access P fs ''/usr/local/bin/brew'' then Some ''/usr/local/bin/brew''
      else if access P fs ''/opt/homebrew/bin/brew'' then Some ''/opt/homebrew/bin/brew''
      else None)"

definition brewStage ::
  "nat \<Rightarrow> 'fs platform \<Rightarrow> config \<Rightarrow> clock \<Rightarrow> 'fs \<Rightarrow> opts \<Rightarrow> item list \<Rightarrow> item list option" where
  "brewStage n P cfg clk fs opts acc =
     (case brewPath P fs of
        None \<Rightarrow> Some acc
      | Some bp \<Rightarrow>
          (case execBrewCache P fs bp of
             None \<Rightarrow> Some acc
           | Some out \<Rightarrow>
               (let bcache = trim out
                in if bcache \<noteq> [] \<and> existsSync P fs bcache
                   then walkCollect n P cfg clk fs bcache opts acc ''Homebrew cache'' ''pkg''
                   else Some acc)))"

definition whenCat ::
  "string list \<Rightarrow> string \<Rightarrow> (item list \<Rightarrow> item list option) \<Rightarrow> item list \<Rightarrow> item list option" where
  "whenCat cats c stage acc = (if c \<in> set cats then stage acc else Some acc)"

fun runStages :: "(item list \<Rightarrow> item list option) list \<Rightarrow> item list \<Rightarrow> item list option" where
  "runStages [] acc = Some acc"
| "runStages (stage # stages) acc =
     (case stage acc of None \<Rightarrow> None | Some acc' \<Rightarrow> runStages stages acc')"

definition scanStages ::
  "nat \<Rightarrow> 'fs platform \<Rightarrow> config \<Rightarrow> clock \<Rightarrow> 'fs \<Rightarrow> string list \<Rightarrow> opts \<Rightarrow>
   (item list \<Rightarrow> item list option) list" where
  "scanStages n P cfg clk fs cats opts =
     (let H = HOME cfg;
          each = (\<lambda>rsn cat dirs. whenCat cats cat (walkEach n P cfg clk fs opts rsn cat dirs));
          containers = path_join [H, ''Library'', ''Containers''];
          devicesRoot = path_join [H, ''Library'', ''Developer'', ''CoreSimulator'', ''Devices'']
      in [each ''User Library cache'' ''user-caches'' [path_join [H, ''Library'', ''Caches'']],
          each ''Browser cache'' ''browsers''
            [path_join [H, ''Library'', ''Caches'', ''com.apple.Safari''],
             path_join [H, ''Library'', ''Caches'', ''Google'', ''Chrome''],
             path_join [H, ''Library'', ''Caches'', ''Microsoft Edge''],
             path_join [H, ''Library'', ''Caches'', ''Firefox'', ''Profiles'']],
          each ''Developer cache'' ''dev''
            [path_join [H, ''Library'', ''Developer'', ''Xcode'', ''DerivedData''],
             path_join [H, ''Library'', ''Developer'', ''Xcode'', ''iOS DeviceSupport''],
             path_join [H, ''Library'', ''Developer'', ''CoreSimulator'', ''Caches'']],
          whenCat cats ''pkg'' (brewStage n P cfg clk fs opts),
          each ''Package manager cache'' ''pkg''
            [path_join [H, ''.npm'', ''_cacache''],
             path_join [H, ''Library'', ''Caches'', ''npm''],
             path_join [H, ''Library'', ''Caches'', ''Yarn''],
             path_join [H, ''Library'', ''pnpm'', ''store''],
             path_join [H, ''Library'', ''Caches'', ''pnpm''],
             path_join [H, ''.cache'', ''pip''],
             path_join [H, ''Library'', ''Caches'', ''pip''],
             path_join [H, ''.cache'', ''pipx'']],
          each ''Downloads item'' ''downloads'' [path_join [H, ''Downloads'']],
          each ''App container cache'' ''deep''
            (if existsSync P fs containers
             then map (\<lambda>appDir. path_join [appDir, ''Data'', ''Library'', ''Caches''])
                    (listDirs P fs containers)
             else []),
          each ''Simulator device cache'' ''deep''
            (if existsSync P fs devicesRoot
             then map (\<lambda>devDir. path_join [devDir, ''data'', ''Library'', ''Caches''])
                    (listDirs P fs devicesRoot)
             else []),
          each ''Xcode archive content'' ''deep''
            [path_join [H, ''Library'', ''Developer'', ''Xcode'', ''Archives'']],
          each ''Logs'' ''deep'' [path_join [H, ''Library'', ''Logs'']]])"

text \<open>\<open>items.reduce\<close>: \<open>acc.count += 1; acc.bytes += Number(it.bytes) || 0\<close>, from
  \<open>{count: 0, bytes: 0}\<close>. The sizes are added as doubles, in the order of the items; the
  count stays far below \<open>2^53\<close> (an array has fewer than \<open>2^32\<close> elements), where adding 1 is
  exact.\<close>

definition computeTotals :: "item list \<Rightarrow> totals" where
  "computeTotals its =
     foldl (\<lambda>acc it. \<lparr>count = count acc + 1, bytes_sum = js_plus (bytes_sum acc) (bytes it)\<rparr>)
       \<lparr>count = 0, bytes_sum = 0\<rparr> its"

text \<open>\<open>q.minSize ?? DEFAULT_MIN_BYTES\<close> and \<open>q.olderThan ?? DEFAULT_OLDER_DAYS\<close>.\<close>

definition effectiveOpts :: "query \<Rightarrow> opts" where
  "effectiveOpts q =
     \<lparr>minBytes = (case minSize q of None \<Rightarrow> DEFAULT_MIN_BYTES | Some v \<Rightarrow> v),
      olderDays = (case olderThan q of None \<Rightarrow> DEFAULT_OLDER_DAYS | Some v \<Rightarrow> v)\<rparr>"

definition scanKey :: "query \<Rightarrow> cacheKey" where
  "scanKey q =
     (minBytes (effectiveOpts q), olderDays (effectiveOpts q), sort (effectiveCats q),
      downloads q)"

text \<open>\<open>scanHandler\<close> returns the report it sends and the cache it leaves; \<open>None\<close> when a walk
  ran out of fuel.\<close>

definition scanHandler ::
  "nat \<Rightarrow> 'fs platform \<Rightarrow> config \<Rightarrow> clock \<Rightarrow> 'fs \<Rightarrow> scanCache \<Rightarrow> (string \<Rightarrow> qval) \<Rightarrow>
   (report \<times> scanCache) option" where
  "scanHandler n P cfg clk fs cache rq =
     (let q = parseQuery P rq;
          options = effectiveOpts q;
          cats = effectiveCats q;
          cacheKey = scanKey q;
          cached = (case cache cacheKey of
                      None \<Rightarrow> None
                    | Some (ts, body) \<Rightarrow>
                        if js_sub P (now clk) ts < SCAN_CACHE_TTL_MS then Some body else None)
      in case cached of
           Some body \<Rightarrow> Some (body, cache)
         | None \<Rightarrow>
             (case runStages (scanStages n P cfg clk fs cats options) [] of
                None \<Rightarrow> None
              | Some its \<Rightarrow>
                  (let body = \<lparr>generatedAt = nowIso clk, home = HOME cfg,
                               totals = computeTotals its, categories = cats, items = its\<rparr>
                   in Some (body, cache(cacheKey \<mapsto> (now clk, body))))))"

section \<open>TrashMover and PlanExecutor: \<open>applyHandler\<close>\<close>

text \<open>
  Every call that changes the file system is logged when the handler issues it, in order,
  whether it succeeds or not.
\<close>

datatype fscall = MkdirCall string | RenameCall string string | RmCall string bool

definition ensureTrashDir ::
  "'fs platform \<Rightarrow> config \<Rightarrow> 'fs \<Rightarrow> string option \<times> 'fs \<times> fscall list" where
  "ensureTrashDir P cfg fs =
     (let t = path_join [HOME cfg, ''.Trash'']
      in if \<not> existsSync P fs t then
           (case mkdirSync P fs t of
              (Some e, fs') \<Rightarrow> (None, fs', [MkdirCall t])
            | (None, fs') \<Rightarrow> (Some t, fs', [MkdirCall t]))
         else (Some t, fs, []))"

text \<open>
  \<open>new Date().toISOString().replace(/[:.]/g, '').replace('T', '-').slice(0, 15)\<close>: every
  colon and dot goes, the first \<open>T\<close> becomes a dash, and the first fifteen characters stay,
  so \<open>2023-11-14T22:13:20.000Z\<close> gives \<open>2023-11-14-2213\<close>, the time to the minute.
\<close>

fun replace_first :: "char \<Rightarrow> char \<Rightarrow> string \<Rightarrow> string" where
  "replace_first a b [] = []"
| "replace_first a b (c # cs) = (if c = a then b # cs else c # replace_first a b cs)"

definition trashStamp :: "string \<Rightarrow> string" where
  "trashStamp isoText =
     take 15 (replace_first (CHR ''T'') (CHR ''-'')
                (filter (\<lambda>c. c \<noteq> CHR '':'' \<and> c \<noteq> CHR ''.'') isoText))"

definition safeTrashMove ::
  "'fs platform \<Rightarrow> config \<Rightarrow> clock \<Rightarrow> 'fs \<Rightarrow> string \<Rightarrow> (string + string) \<times> 'fs \<times> fscall list" where
  "safeTrashMove P cfg clk fs p =
     (case ensureTrashDir P cfg fs of
        (None, fs1, cs) \<Rightarrow> (Inl ''Error: Cannot access ~/.Trash'', fs1, cs)
      | (Some trashDir, fs1, cs) \<Rightarrow>
          (let name = path_basename p;
               ts = trashStamp (nowIso clk);
               dest0 = path_join [trashDir, name];
               dest = (if existsSync P fs1 dest0 then path_join [trashDir, name @ ''-'' @ ts]
                       else dest0)
           in case renameSync P fs1 p dest of
                (Some e, fs2) \<Rightarrow> (Inl e, fs2, cs @ [RenameCall p dest])
              | (None, fs2) \<Rightarrow> (Inr dest, fs2, cs @ [RenameCall p dest])))"

text \<open>
  The entry of \<open>details\<close> for one plan item: \<open>{status: 'missing'}\<close>,
  \<open>{status: 'skipped', reason}\<close>, \<open>{status: 'dry', action, bytes}\<close>,
  \<open>{status: 'deleted', bytes}\<close>, \<open>{status: 'trashed', dest, bytes}\<close> and
  \<open>{status: 'error', error}\<close>. The specification's status names are MISSING, OUT\_OF\_SCOPE
  (\<open>skipped\<close>, \<open>outside_home\<close>), DENY\_LISTED (\<open>skipped\<close>, \<open>deny_listed\<close>), DRY\_PREVIEWED,
  DELETED, TRASHED and ERROR.
\<close>

datatype status =
    Missing
  | Skipped string
  | Dry string nat
  | Deleted nat
  | Trashed string nat
  | Error string

record 'fs applyState =
  fsys :: 'fs
  calls :: "fscall list"
  totalBytes :: nat
  counted :: nat
  details :: "(string \<times> status) list"

text \<open>
  A value that \<open>JSON.parse\<close> returns: an object is the list of its own properties, each key
  once (of a repeated key \<open>JSON.parse\<close> keeps the last value), and no value is a function.

  \<open>String(v)\<close>, \<open>None\<close> when it throws a TypeError. An array is joined with commas, \<open>null\<close>
  giving the empty string. An object is converted by its \<open>toString\<close>, then its \<open>valueOf\<close>:
  with no own \<open>toString\<close> the inherited one answers \<open>[object Object]\<close>; an own \<open>toString\<close>
  is no function and is passed over, an own \<open>valueOf\<close> likewise, the inherited \<open>valueOf\<close>
  returns the object itself, and the conversion throws.
\<close>

fun jsString :: "'fs platform \<Rightarrow> json \<Rightarrow> string option"
  and jsStrings :: "'fs platform \<Rightarrow> json list \<Rightarrow> string list option" where
  "jsString P JNull = Some ''null''"
| "jsString P (JBool b) = Some (if b then ''true'' else ''false'')"
| "jsString P (JNum r) = Some (numberToString P r)"
| "jsString P (JStr s) = Some s"
| "jsString P (JArr vs) = map_option (join_with (CHR '','')) (jsStrings P vs)"
| "jsString P (JObj kvs) =
     (if ''toString'' \<in> set (map fst kvs) then None else Some ''[object Object]'')"
| "jsStrings P [] = Some []"
| "jsStrings P (v # vs) =
     (case (if v = JNull then Some [] else jsString P v) of
        None \<Rightarrow> None
      | Some s \<Rightarrow> (case jsStrings P vs of None \<Rightarrow> None | Some ss \<Rightarrow> Some (s # ss)))"

text \<open>The truth value of a JSON value.\<close>

fun truthy :: "json \<Rightarrow> bool" where
  "truthy JNull = False"
| "truthy (JBool b) = b"
| "truthy (JNum r) = (r \<noteq> 0)"
| "truthy (JStr s) = (s \<noteq> [])"
| "truthy (JArr vs) = True"
| "truthy (JObj kvs) = True"

text \<open>\<open>String(it.path || '')\<close>, \<open>None\<close> when it throws: reading a property of \<open>null\<close> throws
  a TypeError, and so may \<open>String\<close>. A value that is no object has no \<open>path\<close>.\<close>

definition itemPath :: "'fs platform \<Rightarrow> json \<Rightarrow> string option" where
  "itemPath P it =
     (case it of
        JNull \<Rightarrow> None
      | JObj kvs \<Rightarrow>
          (case map_of kvs ''path'' of
             None \<Rightarrow> Some []
           | Some v \<Rightarrow> if truthy v then jsString P v else Some [])
      | _ \<Rightarrow> Some [])"

text \<open>
  The \<open>try\<close> block of the loop body, up to the entry it pushes: \<open>rmSync\<close> (recursive for a
  directory) in delete mode, \<open>safeTrashMove\<close> otherwise. It returns the error's text when
  the call throws and the entry for \<open>details\<close> when it does not, with the state of the file
  system and the calls issued.
\<close>

definition tryMutate ::
  "'fs platform \<Rightarrow> config \<Rightarrow> clock \<Rightarrow> string \<Rightarrow> 'fs \<Rightarrow> string \<Rightarrow> stats option \<Rightarrow>
   (string + status) \<times> 'fs \<times> fscall list" where
  "tryMutate P cfg clk md fs p st =
     (let sz = (case st of None \<Rightarrow> 0 | Some x \<Rightarrow> st_size x)
      in if md = ''delete'' then
           (let recursive = (case st of None \<Rightarrow> False | Some x \<Rightarrow> st_type x = Directory)
            in case rmSync P fs p recursive of
                 (Some e, fs') \<Rightarrow> (Inl e, fs', [RmCall p recursive])
               | (None, fs') \<Rightarrow> (Inr (Deleted sz), fs', [RmCall p recursive]))
         else
           (case safeTrashMove P cfg clk fs p of
              (Inl e, fs', cs) \<Rightarrow> (Inl e, fs', cs)
            | (Inr dest, fs', cs) \<Rightarrow> (Inr (Trashed dest sz), fs', cs)))"

text \<open>The body of \<open>for (const it of plan.items)\<close> once the path is known. \<open>totalBytes +=
  bytes\<close> adds doubles.\<close>

definition applyItem ::
  "'fs platform \<Rightarrow> config \<Rightarrow> clock \<Rightarrow> bool \<Rightarrow> string \<Rightarrow> 'fs applyState \<Rightarrow> string \<Rightarrow>
   'fs applyState" where
  "applyItem P cfg clk dry md s p =
     (if p = [] \<or> \<not> existsSync P (fsys s) p then
        s\<lparr>details := details s @ [(p, Missing)]\<rparr>
      else if \<not> ensureHomeScoped cfg p then
        s\<lparr>details := details s @ [(p, Skipped ''outside_home'')]\<rparr>
      else if isDenyListed cfg p then
        s\<lparr>details := details s @ [(p, Skipped ''deny_listed'')]\<rparr>
      else
        (let st = statSync P (fsys s) p;
             sz = (case st of None \<Rightarrow> 0 | Some x \<Rightarrow> st_size x)
         in if dry then
              s\<lparr>details := details s @ [(p, Dry (if md = ''delete'' then ''delete'' else ''trash'') sz)],
                totalBytes := js_plus (totalBytes s) sz, counted := counted s + 1\<rparr>
            else
              (case tryMutate P cfg clk md (fsys s) p st of
                 (Inl e, fs', cs) \<Rightarrow>
                   s\<lparr>fsys := fs', calls := calls s @ cs, details := details s @ [(p, Error e)]\<rparr>
               | (Inr entry, fs', cs) \<Rightarrow>
                   s\<lparr>fsys := fs', calls := calls s @ cs, details := details s @ [(p, entry)],
                     totalBytes := js_plus (totalBytes s) sz, counted := counted s + 1\<rparr>)))"

text \<open>The loop over \<open>plan.items\<close>. The first line of its body, \<open>String(it.path || '')\<close>, is
  outside every \<open>try\<close>: when it throws, the handler ends there (\<open>Inl\<close>, with the state
  reached) and sends nothing.\<close>

fun applyLoop ::
  "'fs platform \<Rightarrow> config \<Rightarrow> clock \<Rightarrow> bool \<Rightarrow> string \<Rightarrow> 'fs applyState \<Rightarrow> json list \<Rightarrow>
   'fs applyState + 'fs applyState" where
  "applyLoop P cfg clk dry md s [] = Inr s"
| "applyLoop P cfg clk dry md s (it # its) =
     (case itemPath P it of
        None \<Rightarrow> Inl s
      | Some p \<Rightarrow> applyLoop P cfg clk dry md (applyItem P cfg clk dry md s p) its)"

text \<open>\<open>let totalBytes = 0; let count = 0; const details = [];\<close>\<close>

definition applyStart :: "'fs \<Rightarrow> 'fs applyState" where
  "applyStart fs = \<lparr>fsys = fs, calls = [], totalBytes = 0, counted = 0, details = []\<rparr>"

text \<open>\<open>readJsonBody\<close>: the body text, \<open>null\<close> when it is blank or does not parse.\<close>

definition readJsonBody :: "'fs platform \<Rightarrow> string \<Rightarrow> json" where
  "readJsonBody P txt =
     (if trim txt = [] then JNull
      else (case JSON_parse P txt of None \<Rightarrow> JNull | Some v \<Rightarrow> v))"

text \<open>\<open>!plan || !Array.isArray(plan.items)\<close>: only an object whose \<open>items\<close> is an array
  passes.\<close>

definition planItems :: "json \<Rightarrow> json list option" where
  "planItems plan =
     (case plan of
        JObj kvs \<Rightarrow> (case map_of kvs ''items'' of Some (JArr vs) \<Rightarrow> Some vs | _ \<Rightarrow> None)
      | _ \<Rightarrow> None)"

text \<open>The summary of the response. Its \<open>human\<close> field is \<open>humanize(totalBytes)\<close>, a
  rendering of \<open>bytes\<close> for display, and is left out.\<close>

record summary =
  s_count :: nat
  s_bytes :: nat
  s_dryRun :: bool
  s_mode :: string

datatype applyResponse =
    BadRequest string
  | Ok200 summary "(string \<times> status) list"
  | Unhandled

record 'fs applyOutcome =
  response :: applyResponse
  fs_after :: 'fs
  cache_after :: scanCache
  fs_calls :: "fscall list"

definition applyHandler ::
  "'fs platform \<Rightarrow> config \<Rightarrow> clock \<Rightarrow> 'fs \<Rightarrow> scanCache \<Rightarrow> (string \<Rightarrow> qval) \<Rightarrow> string \<Rightarrow>
   'fs applyOutcome" where
  "applyHandler P cfg clk fs cache rq body =
     (let q = parseQuery P rq
      in case planItems (readJsonBody P body) of
           None \<Rightarrow>
             \<lparr>response = BadRequest ''Invalid plan JSON; expected { items: [ { path, category } ] }'',
              fs_after = fs, cache_after = cache, fs_calls = []\<rparr>
         | Some its \<Rightarrow>
             (case applyLoop P cfg clk (dryRun q) (mode q) (applyStart fs) its of
                Inl s \<Rightarrow>
                  \<lparr>response = Unhandled, fs_after = fsys s, cache_after = cache,
                   fs_calls = calls s\<rparr>
              | Inr s \<Rightarrow>
                  \<lparr>response = Ok200 \<lparr>s_count = counted s, s_bytes = totalBytes s,
                                       s_dryRun = dryRun q, s_mode = mode q\<rparr> (details s),
                   fs_after = fsys s, cache_after = Map.empty, fs_calls = calls s\<rparr>))"

section \<open>The command line: \<open>apply_plan\<close> of disk\_cleaner.sh\<close>

text \<open>
  The utilities the script runs, over the same kind of file-system state: \<open>[ -e p ]\<close>,
  \<open>[ -d p ]\<close>, \<open>stat -f %z\<close> (\<open>None\<close> when it fails), and \<open>mkdir -p\<close>, \<open>mv -f\<close>, \<open>rm -rf\<close>,
  which return whether they succeeded and the state they leave.
\<close>

record 'fs shell =
  test_e :: "'fs \<Rightarrow> string \<Rightarrow> bool"
  test_d :: "'fs \<Rightarrow> string \<Rightarrow> bool"
  stat_z :: "'fs \<Rightarrow> string \<Rightarrow> nat option"
  mkdir_p :: "'fs \<Rightarrow> string \<Rightarrow> bool \<times> 'fs"
  mv_f :: "'fs \<Rightarrow> string \<Rightarrow> string \<Rightarrow> bool \<times> 'fs"
  rm_rf :: "'fs \<Rightarrow> string \<Rightarrow> bool \<times> 'fs"

definition dq :: char where
  "dq = CHR 0x22"

text \<open>
  \<open>sed -n 's/.*"path":[[:space:]]*"\([^"]*\)".*/\1/p'\<close> on one line: the leading \<open>.*\<close> is
  greedy, so the match that starts last wins; a line with no match prints nothing.
\<close>

definition sed_path_here :: "string \<Rightarrow> string option" where
  "sed_path_here s =
     (if prefix (dq # ''path'' @ [dq, CHR '':'']) s then
        (case dropWhile is_space (drop 7 s) of
           [] \<Rightarrow> None
         | c # r \<Rightarrow>
             if c = dq \<and> dq \<in> set r then Some (takeWhile (\<lambda>x. x \<noteq> dq) r) else None)
      else None)"

fun sed_path :: "string \<Rightarrow> string option" where
  "sed_path [] = None"
| "sed_path (c # cs) =
     (case sed_path cs of Some v \<Rightarrow> Some v | None \<Rightarrow> sed_path_here (c # cs))"

text \<open>\<open>grep -v '^[[:space:]]*$'\<close> and \<open>grep -v '^[[:space:]]*#'\<close> drop these lines.\<close>

definition blank_line :: "string \<Rightarrow> bool" where
  "blank_line l = (dropWhile is_space l = [])"

definition comment_line :: "string \<Rightarrow> bool" where
  "comment_line l = (case dropWhile is_space l of [] \<Rightarrow> False | c # _ \<Rightarrow> c = CHR ''#'')"

text \<open>The list file \<open>apply_plan\<close> builds from the plan's lines.\<close>

definition plan_list :: "string list \<Rightarrow> string list" where
  "plan_list plan_lines =
     (if list_ex (includes_str (dq # ''items'' @ [dq])) plan_lines
      then List.map_filter sed_path plan_lines
      else filter (\<lambda>l. \<not> comment_line l) (filter (\<lambda>l. \<not> blank_line l) plan_lines))"

text \<open>\<open>basename\<close>: trailing slashes are dropped, then all up to the last slash; a string
  of slashes gives one slash.\<close>

definition sh_basename :: "string \<Rightarrow> string" where
  "sh_basename p =
     (let stripped = rev (dropWhile (\<lambda>c. c = CHR ''/'') (rev p))
      in if p \<noteq> [] \<and> stripped = [] then ''/''
         else rev (takeWhile (\<lambda>c. c \<noteq> CHR ''/'') (rev stripped)))"

definition safe_trash :: "'fs shell \<Rightarrow> string \<Rightarrow> string \<Rightarrow> 'fs \<Rightarrow> string \<Rightarrow> bool \<times> 'fs" where
  "safe_trash S home_dir ts fs p =
     (let t = home_dir @ ''/.Trash'';
          made = (if \<not> test_d S fs t then mkdir_p S fs t else (True, fs))
      in if \<not> fst made then (False, snd made)
         else
           (let nm = sh_basename p;
                dest0 = t @ ''/'' @ nm;
                dest = (if test_e S (snd made) dest0 then t @ ''/'' @ nm @ ''-'' @ ts else dest0)
            in mv_f S (snd made) p dest))"

datatype logEvent =
    PlanNotFound
  | MissingLog string
  | OutsideHomeLog string
  | DenyListedLog string
  | DryLog string nat
  | TrashedLog string nat
  | TrashFailedLog string
  | DeletedLog string nat
  | DeleteFailedLog string
  | CompleteLog bool int int

record 'fs shState =
  sh_fs :: 'fs
  sh_total :: int
  sh_count :: int
  sh_log :: "logEvent list"

text \<open>\<open>$((a + b))\<close>: the shell computes with signed 64-bit integers, and the sum wraps.\<close>

definition sh_plus :: "int \<Rightarrow> int \<Rightarrow> int" where
  "sh_plus a b = (a + b + 9223372036854775808) mod 18446744073709551616 - 9223372036854775808"

text \<open>The body of \<open>while IFS= read -r p\<close>. The totals grow for every path that passes the
  three checks, also when the move or the removal fails.\<close>

definition apply_path ::
  "'fs shell \<Rightarrow> string \<Rightarrow> string \<Rightarrow> bool \<Rightarrow> bool \<Rightarrow> 'fs shState \<Rightarrow> string \<Rightarrow> 'fs shState" where
  "apply_path S home_dir ts dry_run use_trash s p =
     (if \<not> test_e S (sh_fs s) p then s\<lparr>sh_log := sh_log s @ [MissingLog p]\<rparr>
      else if \<not> ensure_home_scope home_dir p then s\<lparr>sh_log := sh_log s @ [OutsideHomeLog p]\<rparr>
      else if deny_listed home_dir p then s\<lparr>sh_log := sh_log s @ [DenyListedLog p]\<rparr>
      else
        (let sz = (case stat_z S (sh_fs s) p of None \<Rightarrow> 0 | Some z \<Rightarrow> z);
             s' =
               (if dry_run then s\<lparr>sh_log := sh_log s @ [DryLog p sz]\<rparr>
                else if use_trash then
                  (case safe_trash S home_dir ts (sh_fs s) p of
                     (True, fs') \<Rightarrow> s\<lparr>sh_fs := fs', sh_log := sh_log s @ [TrashedLog p sz]\<rparr>
                   | (False, fs') \<Rightarrow> s\<lparr>sh_fs := fs', sh_log := sh_log s @ [TrashFailedLog p]\<rparr>)
                else
                  (case rm_rf S (sh_fs s) p of
                     (True, fs') \<Rightarrow> s\<lparr>sh_fs := fs', sh_log := sh_log s @ [DeletedLog p sz]\<rparr>
                   | (False, fs') \<Rightarrow> s\<lparr>sh_fs := fs', sh_log := sh_log s @ [DeleteFailedLog p]\<rparr>))
         in s'\<lparr>sh_total := sh_plus (sh_total s') (int sz),
               sh_count := sh_plus (sh_count s') 1\<rparr>))"

text \<open>\<open>apply_plan\<close>: the plan is the list of the file's lines, \<open>None\<close> when \<open>[ -f "$plan" ]\<close>
  fails (the script logs the error and exits).\<close>

definition apply_plan ::
  "'fs shell \<Rightarrow> string \<Rightarrow> string \<Rightarrow> bool \<Rightarrow> bool \<Rightarrow> 'fs \<Rightarrow> string list option \<Rightarrow> 'fs shState" where
  "apply_plan S home_dir ts dry_run use_trash fs plan =
     (case plan of
        None \<Rightarrow> \<lparr>sh_fs = fs, sh_total = 0, sh_count = 0, sh_log = [PlanNotFound]\<rparr>
      | Some plan_lines \<Rightarrow>
          (let s = foldl (apply_path S home_dir ts dry_run use_trash)
                     \<lparr>sh_fs = fs, sh_total = 0, sh_count = 0, sh_log = []\<rparr> (plan_list plan_lines)
           in s\<lparr>sh_log := sh_log s @ [CompleteLog dry_run (sh_count s) (sh_total s)]\<rparr>))"

section \<open>Predicates the theorems are stated with\<close>

text \<open>The scan filters as inclusive lower bounds, none when the bound is zero (or, for
  the age, not positive): the size is at least \<open>minBytes\<close>, and the age in milliseconds,
  \<open>Date.now() - mtimeMs\<close>, is at least \<open>olderDays * 86400 * 1000\<close>, both as the engine
  computes them.\<close>

definition spec_accepts :: "'fs platform \<Rightarrow> opts \<Rightarrow> clock \<Rightarrow> stats \<Rightarrow> bool" where
  "spec_accepts P opts clk st =
     ((minBytes opts = 0 \<or> minBytes opts \<le> real (st_size st)) \<and>
      (olderDays opts \<le> 0
       \<or> js_mul P (js_mul P (olderDays opts) 86400) 1000 \<le> js_sub P (now clk) (st_mtimeMs st)))"

text \<open>The same bounds in exact arithmetic, as the specification words them: the age is at
  least \<open>olderDays\<close> days of 86400000 milliseconds.\<close>

definition exact_accepts :: "opts \<Rightarrow> clock \<Rightarrow> stats \<Rightarrow> bool" where
  "exact_accepts opts clk st =
     ((minBytes opts = 0 \<or> minBytes opts \<le> real (st_size st)) \<and>
      (olderDays opts \<le> 0 \<or> olderDays opts * 86400000 \<le> now clk - st_mtimeMs st))"

text \<open>
  The directories a walk from \<open>base\<close> can reach: \<open>base\<close> itself, which the walk takes as
  it is given (no check and no \<open>lstat\<close> is made of it), and every entry of a reached
  directory that passes the scope and deny-list checks and that \<open>lstat\<close> reports as a
  directory, hence not as a symbolic link.
\<close>

inductive walked :: "'fs platform \<Rightarrow> config \<Rightarrow> 'fs \<Rightarrow> string \<Rightarrow> string \<Rightarrow> bool"
  for P cfg fs base where
  walked_base: "walked P cfg fs base base"
| walked_step:
    "walked P cfg fs base d \<Longrightarrow> readdir P fs d = Some ents \<Longrightarrow> ent \<in> set ents \<Longrightarrow>
     full = path_join [d, d_name ent] \<Longrightarrow> ensureHomeScoped cfg full \<Longrightarrow>
     \<not> isDenyListed cfg full \<Longrightarrow> lstat P fs full = Some st \<Longrightarrow> st_type st = Directory \<Longrightarrow>
     walked P cfg fs base full"

text \<open>An item a walk from \<open>base\<close> may report: an entry of a reached directory that passes
  the checks, is a regular file by \<open>lstat\<close> and passes the filters.\<close>

definition found ::
  "'fs platform \<Rightarrow> config \<Rightarrow> clock \<Rightarrow> 'fs \<Rightarrow> opts \<Rightarrow> string \<Rightarrow> string \<Rightarrow> string \<Rightarrow> item \<Rightarrow> bool" where
  "found P cfg clk fs opts rsn cat base it =
     (\<exists>d ents ent st.
        walked P cfg fs base d \<and> readdir P fs d = Some ents \<and> ent \<in> set ents \<and>
        path it = path_join [d, d_name ent] \<and>
        ensureHomeScoped cfg (path it) \<and> \<not> isDenyListed cfg (path it) \<and>
        lstat P fs (path it) = Some st \<and> st_type st = RegularFile \<and>
        spec_accepts P opts clk st \<and> it = scanItem P (path it) st rsn cat)"

text \<open>What every report must satisfy, and a cache holding only such reports.\<close>

definition scoped_ok :: "config \<Rightarrow> item \<Rightarrow> bool" where
  "scoped_ok cfg it = (ensureHomeScoped cfg (path it) \<and> \<not> isDenyListed cfg (path it))"

definition report_ok :: "config \<Rightarrow> report \<Rightarrow> bool" where
  "report_ok cfg body =
     (list_all (scoped_ok cfg) (items body) \<and> totals body = computeTotals (items body))"

definition cache_ok :: "config \<Rightarrow> scanCache \<Rightarrow> bool" where
  "cache_ok cfg cache = (\<forall>k ts body. cache k = Some (ts, body) \<longrightarrow> report_ok cfg body)"

definition stage_keeps :: "(item \<Rightarrow> bool) \<Rightarrow> (item list \<Rightarrow> item list option) \<Rightarrow> bool" where
  "stage_keeps Q stage =
     (\<forall>acc res. stage acc = Some res \<longrightarrow> list_all Q acc \<longrightarrow> list_all Q res)"

text \<open>
  The caches the server can hold: empty when it starts, and whatever a scan or an apply
  request leaves, on any file system and at any time. \<open>HOME\<close> and the platform do not
  change while the server runs.
\<close>

inductive reachable_cache :: "'fs platform \<Rightarrow> config \<Rightarrow> scanCache \<Rightarrow> bool" for P cfg where
  at_start: "reachable_cache P cfg Map.empty"
| after_scan:
    "reachable_cache P cfg c \<Longrightarrow> scanHandler n P cfg clk fs c rq = Some (body, c') \<Longrightarrow>
     reachable_cache P cfg c'"
| after_apply:
    "reachable_cache P cfg c \<Longrightarrow>
     reachable_cache P cfg (cache_after (applyHandler P cfg clk fs c rq txt))"

text \<open>The state the loop over the plan ended in, whether it ended normally or by the
  TypeError.\<close>

definition loop_state :: "'fs applyState + 'fs applyState \<Rightarrow> 'fs applyState" where
  "loop_state r = (case r of Inl s \<Rightarrow> s | Inr s \<Rightarrow> s)"

text \<open>What counts toward the summary of an apply call, and with how many bytes.\<close>

fun counted_status :: "status \<Rightarrow> bool" where
  "counted_status (Dry a n) = True"
| "counted_status (Deleted n) = True"
| "counted_status (Trashed d n) = True"
| "counted_status st = False"

fun status_bytes :: "status \<Rightarrow> nat" where
  "status_bytes (Dry a n) = n"
| "status_bytes (Deleted n) = n"
| "status_bytes (Trashed d n) = n"
| "status_bytes st = 0"

text \<open>The status a dry run gives a path, in the specification's words: MISSING,
  OUT\_OF\_SCOPE, DENY\_LISTED, and DRY\_PREVIEWED with the size read from the file system
  for a path that passes the three checks.\<close>

definition dry_verdict :: "'fs platform \<Rightarrow> config \<Rightarrow> string \<Rightarrow> 'fs \<Rightarrow> string \<Rightarrow> status" where
  "dry_verdict P cfg md fs p =
     (if p = [] \<or> \<not> existsSync P fs p then Missing
      else if \<not> ensureHomeScoped cfg p then Skipped ''outside_home''
      else if isDenyListed cfg p then Skipped ''deny_listed''
      else Dry (if md = ''delete'' then ''delete'' else ''trash'')
             (case statSync P fs p of None \<Rightarrow> 0 | Some x \<Rightarrow> st_size x))"

text \<open>The status of a deny-listed path: the two earlier checks come first.\<close>

definition deny_verdict :: "'fs platform \<Rightarrow> config \<Rightarrow> 'fs \<Rightarrow> string \<Rightarrow> status" where
  "deny_verdict P cfg fs p =
     (if p = [] \<or> \<not> existsSync P fs p then Missing
      else if \<not> ensureHomeScoped cfg p then Skipped ''outside_home''
      else Skipped ''deny_listed'')"

fun is_rm :: "fscall \<Rightarrow> bool" where
  "is_rm (RmCall p r) = True"
| "is_rm c = False"

fun is_deleted :: "status \<Rightarrow> bool" where
  "is_deleted (Deleted n) = True"
| "is_deleted st = False"

text \<open>The summary a list of entries calls for: the number of counted entries, and their
  bytes added as doubles, in order.\<close>

definition add_counted :: "nat \<Rightarrow> string \<times> status \<Rightarrow> nat" where
  "add_counted acc d = (if counted_status (snd d) then js_plus acc (status_bytes (snd d)) else acc)"


text \<open>The items of a plan whose path can be read: \<open>String(it.path || '')\<close> does not
  throw. The items of the plan shape \<open>{path, category}\<close> with a string for \<open>path\<close> are
  such.\<close>

definition readable :: "'fs platform \<Rightarrow> json list \<Rightarrow> bool" where
  "readable P its = list_all (\<lambda>it. itemPath P it \<noteq> None) its"

text \<open>An item some walk of a scan may report.\<close>

definition scan_found :: "'fs platform \<Rightarrow> config \<Rightarrow> clock \<Rightarrow> 'fs \<Rightarrow> opts \<Rightarrow> item \<Rightarrow> bool" where
  "scan_found P cfg clk fs opts it = (\<exists>rsn cat base. found P cfg clk fs opts rsn cat base it)"

text \<open>The path a log line of \<open>apply_plan\<close> is about.\<close>

fun event_path :: "logEvent \<Rightarrow> string" where
  "event_path PlanNotFound = []"
| "event_path (MissingLog p) = p"
| "event_path (OutsideHomeLog p) = p"
| "event_path (DenyListedLog p) = p"
| "event_path (DryLog p sz) = p"
| "event_path (TrashedLog p sz) = p"
| "event_path (TrashFailedLog p) = p"
| "event_path (DeletedLog p sz) = p"
| "event_path (DeleteFailedLog p) = p"
| "event_path (CompleteLog d c t) = []"

section \<open>A small file system to run the functions on\<close>

text \<open>
  The files are listed by absolute path. A path that runs through a symbolic link to a
  directory is first rewritten to run through the link's target (\<open>demo_canon\<close>); a symbolic
  link at the end of the path is followed one step by the calls that follow links and is the
  link itself for \<open>lstat\<close>, for a removal and for a renaming. A path in \<open>locked\<close> can be
  neither removed nor renamed. The arithmetic is exact: the fixtures hold whole numbers far
  below \<open>2^53\<close>, for which the engine's is exact too.
\<close>

datatype node = FileNode nat real | DirNode | LinkNode string

record demoFs =
  nodes :: "(string \<times> node) list"
  locked :: "string list"

definition demo_stats :: "node \<Rightarrow> stats" where
  "demo_stats nd =
     (case nd of
        FileNode sz mt \<Rightarrow> \<lparr>st_type = RegularFile, st_size = sz, st_mtimeMs = mt\<rparr>
      | DirNode \<Rightarrow> \<lparr>st_type = Directory, st_size = 64, st_mtimeMs = 0\<rparr>
      | LinkNode t \<Rightarrow> \<lparr>st_type = SymbolicLink, st_size = length t, st_mtimeMs = 0\<rparr>)"

definition demo_canon :: "demoFs \<Rightarrow> string \<Rightarrow> string" where
  "demo_canon fs p =
     (case List.find (\<lambda>(k, nd). case nd of LinkNode t \<Rightarrow> prefix (k @ ''/'') p | _ \<Rightarrow> False)
             (nodes fs) of
        Some (k, LinkNode t) \<Rightarrow> t @ drop (length k) p
      | _ \<Rightarrow> p)"

definition demo_node :: "demoFs \<Rightarrow> string \<Rightarrow> node option" where
  "demo_node fs p = map_of (nodes fs) (demo_canon fs p)"

definition demo_target :: "demoFs \<Rightarrow> string \<Rightarrow> string" where
  "demo_target fs p = (case demo_node fs p of Some (LinkNode t) \<Rightarrow> t | _ \<Rightarrow> demo_canon fs p)"

definition demo_follow :: "demoFs \<Rightarrow> string \<Rightarrow> node option" where
  "demo_follow fs p =
     (case map_of (nodes fs) (demo_target fs p) of Some (LinkNode t) \<Rightarrow> None | r \<Rightarrow> r)"

definition demo_readdir :: "demoFs \<Rightarrow> string \<Rightarrow> dirent list option" where
  "demo_readdir fs d =
     (case demo_follow fs d of
        Some DirNode \<Rightarrow>
          (let pre = demo_target fs d @ ''/''
           in Some (List.map_filter
                (\<lambda>(k, nd). if prefix pre k \<and> CHR ''/'' \<notin> set (drop (length pre) k) \<and> k \<noteq> pre
                           then Some \<lparr>d_name = drop (length pre) k, d_type = st_type (demo_stats nd)\<rparr>
                           else None)
                (nodes fs)))
      | _ \<Rightarrow> None)"

definition demo_remove :: "demoFs \<Rightarrow> string \<Rightarrow> demoFs" where
  "demo_remove fs p = fs\<lparr>nodes := filter (\<lambda>(k, nd). k \<noteq> p \<and> \<not> prefix (p @ ''/'') k) (nodes fs)\<rparr>"

definition demo_rename :: "demoFs \<Rightarrow> string \<Rightarrow> string \<Rightarrow> demoFs" where
  "demo_rename fs p dest =
     (demo_remove fs dest)\<lparr>nodes :=
        map (\<lambda>(k, nd). if k = p \<or> prefix (p @ ''/'') k then (dest @ drop (length p) k, nd) else (k, nd))
          (nodes (demo_remove fs dest))\<rparr>"

fun demo_digits :: "nat \<Rightarrow> string \<Rightarrow> nat option" where
  "demo_digits acc [] = Some acc"
| "demo_digits acc (c # cs) =
     (case map_of [(CHR ''0'', 0::nat), (CHR ''1'', 1), (CHR ''2'', 2), (CHR ''3'', 3), (CHR ''4'', 4),
                   (CHR ''5'', 5), (CHR ''6'', 6), (CHR ''7'', 7), (CHR ''8'', 8), (CHR ''9'', 9)] c of
        None \<Rightarrow> None
      | Some d \<Rightarrow> demo_digits (10 * acc + d) cs)"

definition demo_number :: "string \<Rightarrow> real option" where
  "demo_number s = map_option real (demo_digits 0 (trim s))"

definition demoP :: "(string \<times> json) list \<Rightarrow> demoFs platform" where
  "demoP known_json =
     \<lparr>readdir = demo_readdir,
      lstat = (\<lambda>fs p. map_option demo_stats (demo_node fs p)),
      statSync = (\<lambda>fs p. map_option demo_stats (demo_follow fs p)),
      existsSync = (\<lambda>fs p. demo_follow fs p \<noteq> None),
      access = (\<lambda>fs p. demo_follow fs p \<noteq> None),
      mkdirSync = (\<lambda>fs p. (None, fs\<lparr>nodes := nodes fs @ [(p, DirNode)]\<rparr>)),
      renameSync = (\<lambda>fs p dest.
         if demo_canon fs p \<in> set (locked fs) \<or> demo_node fs p = None
         then (Some ''Error: EACCES: permission denied, rename'', fs)
         else (None, demo_rename fs (demo_canon fs p) (demo_canon fs dest))),
      rmSync = (\<lambda>fs p recursive.
         if demo_canon fs p \<in> set (locked fs)
         then (Some ''Error: EACCES: permission denied, rm'', fs)
         else (None, demo_remove fs (demo_canon fs p))),
      execBrewCache = (\<lambda>fs bp. None),
      finiteNumber = demo_number,
      numberToString = (\<lambda>r. ''0''),
      JSON_parse = map_of known_json,
      js_sub = (\<lambda>a b. a - b),
      js_mul = (\<lambda>a b. a * b),
      js_div = (\<lambda>a b. a / b)\<rparr>"

definition demoS :: "demoFs shell" where
  "demoS =
     \<lparr>test_e = (\<lambda>fs p. demo_follow fs p \<noteq> None),
      test_d = (\<lambda>fs p. demo_follow fs p = Some DirNode),
      stat_z = (\<lambda>fs p. map_option (st_size \<circ> demo_stats) (demo_node fs p)),
      mkdir_p = (\<lambda>fs p. (True, fs\<lparr>nodes := nodes fs @ [(p, DirNode)]\<rparr>)),
      mv_f = (\<lambda>fs p dest.
         if demo_canon fs p \<in> set (locked fs) \<or> demo_node fs p = None then (False, fs)
         else (True, demo_rename fs (demo_canon fs p) (demo_canon fs dest))),
      rm_rf = (\<lambda>fs p.
         if demo_canon fs p \<in> set (locked fs) then (False, fs)
         else (True, demo_remove fs (demo_canon fs p)))\<rparr>"

definition demoCfg :: config where
  "demoCfg = \<lparr>HOME = ''/Users/u'', cwd = ''/srv''\<rparr>"

subsection \<open>Fixtures\<close>

text \<open>
  A home directory with a cache holding a 60 MB and a 10 MB file, both forty days old, and
  a symbolic link to the larger file; Documents holds one file.
\<close>

definition demoFiles :: demoFs where
  "demoFiles =
     \<lparr>nodes =
        [(''/Users/u'', DirNode),
         (''/Users/u/Library'', DirNode),
         (''/Users/u/Library/Caches'', DirNode),
         (''/Users/u/Library/Caches/big.bin'', FileNode 62914560 1696544000000),
         (''/Users/u/Library/Caches/small.bin'', FileNode 10485760 1696544000000),
         (''/Users/u/Library/Caches/lnk'', LinkNode ''/Users/u/Library/Caches/big.bin''),
         (''/Users/u/Documents'', DirNode),
         (''/Users/u/Documents/thesis.txt'', FileNode 2048 1696544000000)],
      locked = []\<rparr>"

definition demoClock :: clock where
  "demoClock = \<lparr>now = 1700000000000, nowIso = ''2023-11-14T22:13:20.000Z''\<rparr>"

text \<open>The query \<open>?minSize=52428800&olderThan=30&include=user-caches\<close>, and the empty
  query.\<close>

definition demoQuery :: "string \<Rightarrow> qval" where
  "demoQuery k =
     (if k = ''minSize'' then QStr ''52428800''
      else if k = ''olderThan'' then QStr ''30''
      else if k = ''include'' then QStr ''user-caches''
      else QAbsent)"

definition noQuery :: "string \<Rightarrow> qval" where
  "noQuery k = QAbsent"

definition bigItem :: item where
  "bigItem =
     \<lparr>path = ''/Users/u/Library/Caches/big.bin'', bytes = 62914560, mtime = 1696544000,
      category = ''user-caches'', reason = ''User Library cache'', trashable = True\<rparr>"

definition demoReport :: report where
  "demoReport =
     \<lparr>generatedAt = ''2023-11-14T22:13:20.000Z'', home = ''/Users/u'',
      totals = \<lparr>count = 1, bytes_sum = 62914560\<rparr>, categories = [''user-caches''],
      items = [bigItem]\<rparr>"

definition defaultReport :: report where
  "defaultReport =
     \<lparr>generatedAt = ''2023-11-14T22:13:20.000Z'', home = ''/Users/u'',
      totals = \<lparr>count = 1, bytes_sum = 62914560\<rparr>,
      categories = [''user-caches'', ''browsers'', ''dev'', ''pkg''],
      items = [bigItem]\<rparr>"

text \<open>
  Request bodies and what \<open>JSON.parse\<close> makes of them. The last one is a plain-text plan, which
  is no JSON text.
\<close>

definition docsPlan :: string where
  \<open>docsPlan = ''{"items":[{"path":"/Users/u/Documents/thesis.txt","category":"downloads"}]}''\<close>

definition gonePlan :: string where
  \<open>gonePlan = ''{"items":[{"path":"/Users/u/Documents/gone.txt","category":"downloads"}]}''\<close>

definition cachesPlan :: string where
  \<open>cachesPlan = ''{"items":[{"path":"/Users/u/Library/Caches/big.bin"},{"path":"/Users/u/Library/Caches/small.bin"}]}''\<close>

definition linkPlan :: string where
  \<open>linkPlan = ''{"items":[{"path":"/Users/u/Library/Caches/lnk","category":"user-caches"}]}''\<close>

definition mailPlan :: string where
  \<open>mailPlan = ''{"items":[{"path":"/Users/u/Library/Mail/inbox.mbox"},{"path":"/Users/u/Library"}]}''\<close>

definition nullPlan :: string where
  \<open>nullPlan = ''{"items":[{"path":"/Users/u/Library/Caches/big.bin"},null]}''\<close>

definition brokenPlan :: string where
  \<open>brokenPlan = ''{"items":[{"path":"/Users/u/Library/Caches/big.bin"},null,{"path":"/Users/u/Library/Caches/small.bin"}]}''\<close>

definition textPlan :: string where
  "textPlan = ''# cleanup plan'' @ [CHR 0x0A] @ ''/Users/u/Library/Caches/small.bin'' @ [CHR 0x0A]"

definition demoBodies :: "(string \<times> json) list" where
  "demoBodies =
     [(docsPlan, JObj [(''items'', JArr [JObj [(''path'', JStr ''/Users/u/Documents/thesis.txt''),
                                              (''category'', JStr ''downloads'')]])]),
      (gonePlan, JObj [(''items'', JArr [JObj [(''path'', JStr ''/Users/u/Documents/gone.txt''),
                                              (''category'', JStr ''downloads'')]])]),
      (cachesPlan, JObj [(''items'', JArr [JObj [(''path'', JStr ''/Users/u/Library/Caches/big.bin'')],
                                           JObj [(''path'', JStr ''/Users/u/Library/Caches/small.bin'')]])]),
      (linkPlan, JObj [(''items'', JArr [JObj [(''path'', JStr ''/Users/u/Library/Caches/lnk''),
                                              (''category'', JStr ''user-caches'')]])]),
      (mailPlan, JObj [(''items'', JArr [JObj [(''path'', JStr ''/Users/u/Library/Mail/inbox.mbox'')],
                                         JObj [(''path'', JStr ''/Users/u/Library'')]])]),
      (nullPlan, JObj [(''items'', JArr [JObj [(''path'', JStr ''/Users/u/Library/Caches/big.bin'')],
                                         JNull])]),
      (brokenPlan, JObj [(''items'', JArr [JObj [(''path'', JStr ''/Users/u/Library/Caches/big.bin'')],
                                           JNull,
                                           JObj [(''path'', JStr ''/Users/u/Library/Caches/small.bin'')]])])]"

text \<open>The same files with the larger cache file locked against removal and renaming.\<close>

definition lockedFiles :: demoFs where
  "lockedFiles = demoFiles\<lparr>locked := [''/Users/u/Library/Caches/big.bin'']\<rparr>"

definition deleteQuery :: "string \<Rightarrow> qval" where
  "deleteQuery k = (if k = ''mode'' then QStr ''delete'' else QAbsent)"


definition shoutedQuery :: "string \<Rightarrow> qval" where
  "shoutedQuery k = (if k = ''mode'' then QStr ''DELETE'' else QAbsent)"

text \<open>The locked files once the trash directory exists.\<close>

definition lockedFiles1 :: demoFs where
  "lockedFiles1 = lockedFiles\<lparr>nodes := nodes lockedFiles @ [(''/Users/u/.Trash'', DirNode)]\<rparr>"

definition smallItem :: item where
  "smallItem =
     \<lparr>path = ''/Users/u/Library/Caches/small.bin'', bytes = 10485760, mtime = 1696544000,
      category = ''user-caches'', reason = ''User Library cache'', trashable = True\<rparr>"

text \<open>The lines of the plain-text plan above, as the shell script reads them.\<close>

definition textPlanLines :: "string list" where
  "textPlanLines = [''# cleanup plan'', ''/Users/u/Library/Caches/small.bin'']"

text \<open>The query \<open>?minSize=0&olderThan=0&include=user-caches\<close> and the report it gives on
  the files above: both cache files.\<close>

definition allQuery :: "string \<Rightarrow> qval" where
  "allQuery k =
     (if k = ''minSize'' then QStr ''0''
      else if k = ''olderThan'' then QStr ''0''
      else if k = ''include'' then QStr ''user-caches''
      else QAbsent)"

definition twoReport :: report where
  "twoReport =
     \<lparr>generatedAt = ''2023-11-14T22:13:20.000Z'', home = ''/Users/u'',
      totals = \<lparr>count = 2, bytes_sum = 73400320\<rparr>, categories = [''user-caches''],
      items = [bigItem, smallItem]\<rparr>"

text \<open>A cache that holds a sparse disk image of \<open>2^53\<close> bytes and two files of one byte,
  and the report of the same query on it.\<close>

definition sparseFiles :: demoFs where
  "sparseFiles =
     \<lparr>nodes =
        [(''/Users/u'', DirNode),
         (''/Users/u/Library'', DirNode),
         (''/Users/u/Library/Caches'', DirNode),
         (''/Users/u/Library/Caches/disk.img'', FileNode 9007199254740992 1696544000000),
         (''/Users/u/Library/Caches/a.log'', FileNode 1 1696544000000),
         (''/Users/u/Library/Caches/b.log'', FileNode 1 1696544000000)],
      locked = []\<rparr>"

definition sparseItems :: "item list" where
  "sparseItems =
     [\<lparr>path = ''/Users/u/Library/Caches/disk.img'', bytes = 9007199254740992, mtime = 1696544000,
       category = ''user-caches'', reason = ''User Library cache'', trashable = True\<rparr>,
      \<lparr>path = ''/Users/u/Library/Caches/a.log'', bytes = 1, mtime = 1696544000,
       category = ''user-caches'', reason = ''User Library cache'', trashable = True\<rparr>,
      \<lparr>path = ''/Users/u/Library/Caches/b.log'', bytes = 1, mtime = 1696544000,
       category = ''user-caches'', reason = ''User Library cache'', trashable = True\<rparr>]"

definition sparseReport :: report where
  "sparseReport =
     \<lparr>generatedAt = ''2023-11-14T22:13:20.000Z'', home = ''/Users/u'',
      totals = \<lparr>count = 3, bytes_sum = 9007199254740992\<rparr>, categories = [''user-caches''],
      items = sparseItems\<rparr>"

text \<open>A home directory in which the Yarn cache is a symbolic link to Documents, the query
  \<open>?minSize=0&olderThan=0\<close>, and the report it gives there.\<close>

definition yarnFiles :: demoFs where
  "yarnFiles =
     \<lparr>nodes =
        [(''/Users/u'', DirNode),
         (''/Users/u/Library'', DirNode),
         (''/Users/u/Library/Caches'', DirNode),
         (''/Users/u/Library/Caches/Yarn'', LinkNode ''/Users/u/Documents''),
         (''/Users/u/Documents'', DirNode),
         (''/Users/u/Documents/thesis.txt'', FileNode 2048 1696544000000)],
      locked = []\<rparr>"

definition zeroQuery :: "string \<Rightarrow> qval" where
  "zeroQuery k =
     (if k = ''minSize'' then QStr ''0'' else if k = ''olderThan'' then QStr ''0'' else QAbsent)"

definition yarnItem :: item where
  "yarnItem =
     \<lparr>path = ''/Users/u/Library/Caches/Yarn/thesis.txt'', bytes = 2048, mtime = 1696544000,
      category = ''pkg'', reason = ''Package manager cache'', trashable = True\<rparr>"

definition yarnReport :: report where
  "yarnReport =
     \<lparr>generatedAt = ''2023-11-14T22:13:20.000Z'', home = ''/Users/u'',
      totals = \<lparr>count = 1, bytes_sum = 2048\<rparr>,
      categories = [''user-caches'', ''browsers'', ''dev'', ''pkg''],
      items = [yarnItem]\<rparr>"

text \<open>A home directory with a mailbox.\<close>

definition mailFiles :: demoFs where
  "mailFiles =
     \<lparr>nodes =
        [(''/Users/u'', DirNode),
         (''/Users/u/Library'', DirNode),
         (''/Users/u/Library/Mail'', DirNode),
         (''/Users/u/Library/Mail/inbox.mbox'', FileNode 4096 1696544000000)],
      locked = []\<rparr>"

section \<open>The safety checks of the server against the specification's\<close>

lemma in_subtree_prefix: "in_subtree tree p \<Longrightarrow> prefix tree p"
  by (auto simp: in_subtree_def prefix_def)

lemma spec_deny_implies_isDenyListed: "spec_isDenyListed cfg p \<Longrightarrow> isDenyListed cfg p"
  unfolding spec_isDenyListed_def isDenyListed_def spec_deny_roots_def matches_photoslibrary_def Let_def
  by (auto dest: in_subtree_prefix)

lemma scoped_implies_spec_scope: "ensureHomeScoped cfg p \<Longrightarrow> spec_isInHomeScope cfg p"
  unfolding ensureHomeScoped_def spec_isInHomeScope_def in_subtree_def Let_def
  by (auto simp: prefix_def)

section \<open>The walk\<close>

lemma visitEntry_result:
  "visitEntry P cfg clk fs opts rsn cat current acc ent = acc
    \<or> (\<exists>st. ensureHomeScoped cfg (path_join [current, d_name ent])
          \<and> \<not> isDenyListed cfg (path_join [current, d_name ent])
          \<and> lstat P fs (path_join [current, d_name ent]) = Some st
          \<and> st_type st = Directory
          \<and> visitEntry P cfg clk fs opts rsn cat current acc ent
              = (path_join [current, d_name ent] # fst acc, snd acc))
    \<or> (\<exists>st. ensureHomeScoped cfg (path_join [current, d_name ent])
          \<and> \<not> isDenyListed cfg (path_join [current, d_name ent])
          \<and> lstat P fs (path_join [current, d_name ent]) = Some st
          \<and> st_type st = RegularFile \<and> spec_accepts P opts clk st
          \<and> visitEntry P cfg clk fs opts rsn cat current acc ent
              = (fst acc, snd acc @ [scanItem P (path_join [current, d_name ent]) st rsn cat]))"
  unfolding visitEntry_def spec_accepts_def Let_def
  by (auto split: option.splits)

lemma foldl_visit_inv:
  assumes step_dir: "\<And>ent st. ent \<in> set ents \<Longrightarrow> ensureHomeScoped cfg (path_join [current, d_name ent]) \<Longrightarrow>
      \<not> isDenyListed cfg (path_join [current, d_name ent]) \<Longrightarrow>
      lstat P fs (path_join [current, d_name ent]) = Some st \<Longrightarrow> st_type st = Directory \<Longrightarrow>
      D (path_join [current, d_name ent])"
    and step_file: "\<And>ent st. ent \<in> set ents \<Longrightarrow> ensureHomeScoped cfg (path_join [current, d_name ent]) \<Longrightarrow>
      \<not> isDenyListed cfg (path_join [current, d_name ent]) \<Longrightarrow>
      lstat P fs (path_join [current, d_name ent]) = Some st \<Longrightarrow> st_type st = RegularFile \<Longrightarrow>
      spec_accepts P opts clk st \<Longrightarrow> Q (scanItem P (path_join [current, d_name ent]) st rsn cat)"
    and "\<forall>d \<in> set (fst acc). D d" and "\<forall>it \<in> set (snd acc). Q it"
  shows "(\<forall>d \<in> set (fst (foldl (visitEntry P cfg clk fs opts rsn cat current) acc ents)). D d)
       \<and> (\<forall>it \<in> set (snd (foldl (visitEntry P cfg clk fs opts rsn cat current) acc ents)). Q it)"
  using assms
proof (induction ents arbitrary: acc)
  case Nil
  then show ?case by simp
next
  case (Cons e es)
  let ?acc' = "visitEntry P cfg clk fs opts rsn cat current acc e"
  have inv: "(\<forall>d \<in> set (fst ?acc'). D d) \<and> (\<forall>it \<in> set (snd ?acc'). Q it)"
    using visitEntry_result[of P cfg clk fs opts rsn cat current acc e]
      Cons.prems(1)[of e] Cons.prems(2)[of e] Cons.prems(3,4)
    by auto
  have "(\<forall>d \<in> set (fst (foldl (visitEntry P cfg clk fs opts rsn cat current) ?acc' es)). D d)
      \<and> (\<forall>it \<in> set (snd (foldl (visitEntry P cfg clk fs opts rsn cat current) ?acc' es)). Q it)"
    by (rule Cons.IH) (use Cons.prems(1,2) inv in auto)
  then show ?case by simp
qed

lemma walkLoop_inv:
  assumes step_dir: "\<And>current ents ent st. D current \<Longrightarrow> readdir P fs current = Some ents \<Longrightarrow>
      ent \<in> set ents \<Longrightarrow> ensureHomeScoped cfg (path_join [current, d_name ent]) \<Longrightarrow>
      \<not> isDenyListed cfg (path_join [current, d_name ent]) \<Longrightarrow>
      lstat P fs (path_join [current, d_name ent]) = Some st \<Longrightarrow> st_type st = Directory \<Longrightarrow>
      D (path_join [current, d_name ent])"
    and step_file: "\<And>current ents ent st. D current \<Longrightarrow> readdir P fs current = Some ents \<Longrightarrow>
      ent \<in> set ents \<Longrightarrow> ensureHomeScoped cfg (path_join [current, d_name ent]) \<Longrightarrow>
      \<not> isDenyListed cfg (path_join [current, d_name ent]) \<Longrightarrow>
      lstat P fs (path_join [current, d_name ent]) = Some st \<Longrightarrow> st_type st = RegularFile \<Longrightarrow>
      spec_accepts P opts clk st \<Longrightarrow> Q (scanItem P (path_join [current, d_name ent]) st rsn cat)"
  shows "walkLoop n P cfg clk fs opts rsn cat stack acc = Some res \<Longrightarrow>
         \<forall>d \<in> set stack. D d \<Longrightarrow> \<forall>it \<in> set acc. Q it \<Longrightarrow> \<forall>it \<in> set res. Q it"
proof (induction n arbitrary: stack acc)
  case 0
  then show ?case by (cases stack) auto
next
  case (Suc n)
  show ?case
  proof (cases stack)
    case Nil
    then show ?thesis using Suc.prems by simp
  next
    case (Cons current rest)
    have Dc: "D current" using Suc.prems(2) Cons by simp
    show ?thesis
    proof (cases "readdir P fs current")
      case None
      then have "walkLoop n P cfg clk fs opts rsn cat rest acc = Some res"
        using Suc.prems(1) Cons by simp
      then show ?thesis using Suc.IH[of rest acc] Suc.prems(2,3) Cons by simp
    next
      case (Some ents)
      obtain stack' items' where
        f: "foldl (visitEntry P cfg clk fs opts rsn cat current) (rest, acc) ents = (stack', items')"
        by (cases "foldl (visitEntry P cfg clk fs opts rsn cat current) (rest, acc) ents")
      have inv: "(\<forall>d \<in> set stack'. D d) \<and> (\<forall>it \<in> set items'. Q it)"
        using foldl_visit_inv[of ents cfg current P fs D opts clk Q rsn cat "(rest, acc)"]
          step_dir[OF Dc Some] step_file[OF Dc Some] Suc.prems(2,3) Cons f
        by auto
      have run: "walkLoop n P cfg clk fs opts rsn cat stack' items' = Some res"
        using Suc.prems(1) Cons Some f by simp
      show ?thesis using Suc.IH[OF run] inv by blast
    qed
  qed
qed

text \<open>The fuel only bounds the walk: a walk that ends gives the same items with more fuel.\<close>

lemma walkLoop_more_fuel:
  "walkLoop n P cfg clk fs opts rsn cat stack acc = Some res \<Longrightarrow>
   walkLoop (n + k) P cfg clk fs opts rsn cat stack acc = Some res"
proof (induction n arbitrary: stack acc)
  case 0
  then show ?case by (cases stack) auto
next
  case (Suc n)
  show ?case
  proof (cases stack)
    case Nil
    then show ?thesis using Suc.prems by simp
  next
    case (Cons current rest)
    show ?thesis
    proof (cases "readdir P fs current")
      case None
      then show ?thesis using Suc.prems Suc.IH[of rest acc] Cons by simp
    next
      case (Some ents)
      obtain stack' items' where
        f: "foldl (visitEntry P cfg clk fs opts rsn cat current) (rest, acc) ents = (stack', items')"
        by (cases "foldl (visitEntry P cfg clk fs opts rsn cat current) (rest, acc) ents")
      then show ?thesis using Suc.prems Suc.IH[of stack' items'] Cons Some by simp
    qed
  qed
qed

lemma scoped_ok_scanItem:
  "ensureHomeScoped cfg full \<Longrightarrow> \<not> isDenyListed cfg full \<Longrightarrow> scoped_ok cfg (scanItem P full st rsn cat)"
  by (simp add: scoped_ok_def scanItem_def)

lemma walkCollect_scoped:
  assumes "walkCollect n P cfg clk fs base opts acc rsn cat = Some res" and "list_all (scoped_ok cfg) acc"
  shows "list_all (scoped_ok cfg) res"
proof -
  have run: "walkLoop n P cfg clk fs opts rsn cat [base] acc = Some res"
    using assms(1) by (simp add: walkCollect_def)
  have "\<forall>it \<in> set res. scoped_ok cfg it"
  proof (rule walkLoop_inv[where D = "\<lambda>d. True" and Q = "scoped_ok cfg", OF _ _ run])
    show "\<forall>d\<in>set [base]. True" by simp
    show "\<forall>it\<in>set acc. scoped_ok cfg it" using assms(2) by (simp add: list_all_iff)
  qed (simp_all add: scoped_ok_scanItem)
  then show ?thesis by (simp add: list_all_iff)
qed

lemma walkEach_scoped: "stage_keeps (scoped_ok cfg) (walkEach n P cfg clk fs opts rsn cat dirs)"
  unfolding stage_keeps_def
proof (induction dirs)
  case Nil
  then show ?case by simp
next
  case (Cons d ds)
  show ?case
  proof (intro allI impI)
    fix acc res
    assume run: "walkEach n P cfg clk fs opts rsn cat (d # ds) acc = Some res"
      and ok: "list_all (scoped_ok cfg) acc"
    show "list_all (scoped_ok cfg) res"
    proof (cases "existsSync P fs d")
      case False
      then show ?thesis using run ok Cons.IH by simp
    next
      case True
      then obtain mid where w: "walkCollect n P cfg clk fs d opts acc rsn cat = Some mid"
        and rest: "walkEach n P cfg clk fs opts rsn cat ds mid = Some res"
        using run by (auto split: option.splits)
      from walkCollect_scoped[OF w ok] rest Cons.IH show ?thesis by blast
    qed
  qed
qed

lemma brewStage_scoped: "stage_keeps (scoped_ok cfg) (brewStage n P cfg clk fs opts)"
  unfolding stage_keeps_def brewStage_def Let_def
  by (auto split: option.splits if_splits dest: walkCollect_scoped)

lemma whenCat_keeps: "stage_keeps Q stage \<Longrightarrow> stage_keeps Q (whenCat cats c stage)"
  by (auto simp: stage_keeps_def whenCat_def)

lemma runStages_keeps:
  "\<forall>stage \<in> set stages. stage_keeps Q stage \<Longrightarrow> runStages stages acc = Some res \<Longrightarrow>
   list_all Q acc \<Longrightarrow> list_all Q res"
proof (induction stages arbitrary: acc)
  case Nil
  then show ?case by simp
next
  case (Cons stage stages)
  then obtain mid where m: "stage acc = Some mid" and r: "runStages stages mid = Some res"
    by (auto split: option.splits)
  have "list_all Q mid" using Cons.prems(1,3) m by (auto simp: stage_keeps_def)
  then show ?case using Cons.IH[OF _ r] Cons.prems(1) by simp
qed

lemma scanStages_scoped:
  "\<forall>stage \<in> set (scanStages n P cfg clk fs cats opts). stage_keeps (scoped_ok cfg) stage"
  unfolding scanStages_def Let_def
  by (simp add: whenCat_keeps walkEach_scoped brewStage_scoped)

section \<open>Reports and the cache\<close>

text \<open>Every natural number up to \<open>2^53\<close> is a double, so a sum that stays there is
  exact.\<close>

lemma spacing_small: "n < 9007199254740992 \<Longrightarrow> spacing n = 1"
  by (simp add: spacing.simps)

lemma toDouble_exact: "n \<le> 9007199254740992 \<Longrightarrow> toDouble n = n"
proof (cases "n < 9007199254740992")
  case True
  then show ?thesis by (simp add: toDouble_def spacing_small)
next
  case False
  assume "n \<le> 9007199254740992"
  with False have n: "n = 9007199254740992" by simp
  have "spacing n = 2" unfolding n by (simp add: spacing.simps[of 9007199254740992] spacing_small)
  then show ?thesis by (simp add: toDouble_def Let_def n)
qed

lemma js_plus_exact: "a + b \<le> 9007199254740992 \<Longrightarrow> js_plus a b = a + b"
  by (simp add: js_plus_def toDouble_exact)

lemma computeTotals_fold:
  "b + sum_list (map bytes its) \<le> 9007199254740992 \<Longrightarrow>
   foldl (\<lambda>acc it. \<lparr>count = count acc + 1, bytes_sum = js_plus (bytes_sum acc) (bytes it)\<rparr>)
      \<lparr>count = c, bytes_sum = b\<rparr> its
   = \<lparr>count = c + length its, bytes_sum = b + sum_list (map bytes its)\<rparr>"
proof (induction its arbitrary: c b)
  case Nil
  then show ?case by simp
next
  case (Cons it its)
  have "js_plus b (bytes it) = b + bytes it" using Cons.prems by (simp add: js_plus_exact)
  then show ?case using Cons.IH[of "b + bytes it" "c + 1"] Cons.prems by (simp add: add.assoc)
qed

lemma computeTotals_exact:
  "sum_list (map bytes its) \<le> 9007199254740992 \<Longrightarrow>
   computeTotals its = \<lparr>count = length its, bytes_sum = sum_list (map bytes its)\<rparr>"
  unfolding computeTotals_def using computeTotals_fold[of 0 its 0] by simp

lemma computeTotals_count_fold:
  "count (foldl (\<lambda>acc it. \<lparr>count = count acc + 1, bytes_sum = js_plus (bytes_sum acc) (bytes it)\<rparr>)
      acc its) = count acc + length its"
  by (induction its arbitrary: acc) simp_all

lemma computeTotals_count: "count (computeTotals its) = length its"
  unfolding computeTotals_def computeTotals_count_fold by simp

lemma cache_okD: "cache_ok cfg cache \<Longrightarrow> cache k = Some (ts, body) \<Longrightarrow> report_ok cfg body"
  unfolding cache_ok_def by blast

lemma cache_ok_upd:
  "cache_ok cfg cache \<Longrightarrow> report_ok cfg body \<Longrightarrow> cache_ok cfg (cache(k \<mapsto> (ts, body)))"
  unfolding cache_ok_def by (simp only: fun_upd_apply) (metis option.inject prod.inject)

lemma cache_ok_empty: "cache_ok cfg Map.empty"
  by (simp add: cache_ok_def)

lemma scanHandler_ok:
  assumes "cache_ok cfg cache" and "scanHandler n P cfg clk fs cache rq = Some (body, cache')"
  shows "report_ok cfg body \<and> cache_ok cfg cache'"
proof (cases "cache (scanKey (parseQuery P rq))")
  case None
  then obtain its where r: "runStages (scanStages n P cfg clk fs (effectiveCats (parseQuery P rq)) (effectiveOpts (parseQuery P rq))) [] = Some its"
    and b: "body = \<lparr>generatedAt = nowIso clk, home = HOME cfg, totals = computeTotals its,
                    categories = effectiveCats (parseQuery P rq), items = its\<rparr>"
    and c: "cache' = cache(scanKey (parseQuery P rq) \<mapsto> (now clk, body))"
    using assms(2) by (auto simp: scanHandler_def Let_def split: option.splits)
  have "list_all (scoped_ok cfg) its"
    using runStages_keeps[OF scanStages_scoped r] by simp
  then have ok: "report_ok cfg body" by (simp add: report_ok_def b)
  then show ?thesis using cache_ok_upd[OF assms(1) ok] c by simp
next
  case (Some e)
  obtain ts old where e: "e = (ts, old)" by (cases e)
  show ?thesis
  proof (cases "js_sub P (now clk) ts < SCAN_CACHE_TTL_MS")
    case True
    then have "body = old" "cache' = cache"
      using assms(2) Some e by (auto simp: scanHandler_def Let_def)
    then show ?thesis using assms(1) cache_okD[OF assms(1)] Some e by simp
  next
    case False
    then obtain its where r: "runStages (scanStages n P cfg clk fs (effectiveCats (parseQuery P rq)) (effectiveOpts (parseQuery P rq))) [] = Some its"
      and b: "body = \<lparr>generatedAt = nowIso clk, home = HOME cfg, totals = computeTotals its,
                    categories = effectiveCats (parseQuery P rq), items = its\<rparr>"
      and c: "cache' = cache(scanKey (parseQuery P rq) \<mapsto> (now clk, body))"
      using assms(2) Some e by (auto simp: scanHandler_def Let_def split: option.splits)
    have "list_all (scoped_ok cfg) its"
      using runStages_keeps[OF scanStages_scoped r] by simp
    then have ok: "report_ok cfg body" by (simp add: report_ok_def b)
    then show ?thesis using cache_ok_upd[OF assms(1) ok] c by simp
  qed
qed

lemma applyHandler_cache_ok:
  "cache_ok cfg cache \<Longrightarrow> cache_ok cfg (cache_after (applyHandler P cfg clk fs cache rq txt))"
  by (auto simp: applyHandler_def Let_def cache_ok_empty split: option.splits sum.splits)

lemma reachable_cache_ok: "reachable_cache P cfg cache \<Longrightarrow> cache_ok cfg cache"
proof (induction rule: reachable_cache.induct)
  case at_start
  then show ?case by (rule cache_ok_empty)
next
  case (after_scan c n clk fs rq body c')
  from scanHandler_ok[OF after_scan.IH after_scan.hyps(2)] show ?case by simp
next
  case (after_apply c clk fs rq payload)
  from applyHandler_cache_ok[OF after_apply.IH] show ?case .
qed

section \<open>Runs on the fixtures\<close>

lemmas path_defs = path_resolve_def path_join_def path_normalize_def normalizeString_def
  isAbsolute_def split_sep_def join_sep_def
lemmas deny_defs = isDenyListed_def ensureHomeScoped_def matches_photoslibrary_def
lemmas demo_defs = demoP_def demoFiles_def demo_stats_def demo_follow_def demo_target_def
  demo_node_def demo_canon_def demo_readdir_def demoCfg_def demoClock_def List.map_filter_def

lemma demo_walk:
  "walkCollect (Suc 0) (demoP known) demoCfg demoClock demoFiles ''/Users/u/Library/Caches''
     \<lparr>minBytes = 52428800, olderDays = 30\<rparr> acc ''User Library cache'' ''user-caches''
   = Some (acc @ [bigItem])"
  by (simp add: walkCollect_def visitEntry_def scanItem_def bigItem_def path_defs deny_defs demo_defs)

lemma demo_parse:
  "parseQuery (demoP known) demoQuery =
     \<lparr>minSize = Some 52428800, olderThan = Some 30, q_include = Some [''user-caches''],
      q_exclude = None, downloads = False, dryRun = False, mode = ''trash''\<rparr>"
  by (simp add: parseQuery_def queryNumber_def queryList_def demoQuery_def demoP_def
      demo_number_def trim_def is_space_def)

lemma no_parse:
  "parseQuery (demoP known) noQuery =
     \<lparr>minSize = None, olderThan = None, q_include = None,
      q_exclude = None, downloads = False, dryRun = False, mode = ''trash''\<rparr>"
  by (simp add: parseQuery_def queryNumber_def queryList_def noQuery_def)

lemma demo_canon_files:
  "\<not> prefix ''/Users/u/Library/Caches/lnk/'' p \<Longrightarrow> demo_canon demoFiles p = p"
  by (simp add: demo_canon_def demoFiles_def)

lemma demo_exists:
  assumes "\<not> prefix ''/Users/u/Library/Caches/lnk/'' p"
  shows "existsSync (demoP known) demoFiles p =
     (p \<in> {''/Users/u'', ''/Users/u/Library'', ''/Users/u/Library/Caches'',
            ''/Users/u/Library/Caches/big.bin'', ''/Users/u/Library/Caches/small.bin'',
            ''/Users/u/Library/Caches/lnk'', ''/Users/u/Documents'', ''/Users/u/Documents/thesis.txt''})"
proof -
  have c: "demo_canon demoFiles p = p" using assms by (rule demo_canon_files)
  have "existsSync (demoP known) demoFiles p
      = ((case map_of (nodes demoFiles) (case map_of (nodes demoFiles) p of Some (LinkNode t) \<Rightarrow> t | _ \<Rightarrow> p) of
            Some (LinkNode t) \<Rightarrow> None | r \<Rightarrow> r) \<noteq> None)"
    by (simp add: demoP_def demo_follow_def demo_target_def demo_node_def c split: option.split node.split)
  also have "\<dots> = (p \<in> {''/Users/u'', ''/Users/u/Library'', ''/Users/u/Library/Caches'',
            ''/Users/u/Library/Caches/big.bin'', ''/Users/u/Library/Caches/small.bin'',
            ''/Users/u/Library/Caches/lnk'', ''/Users/u/Documents'', ''/Users/u/Documents/thesis.txt''})"
    by (simp add: demoFiles_def)
  finally show ?thesis .
qed

lemma demo_caches_path: "path_join [HOME demoCfg, ''Library'', ''Caches''] = ''/Users/u/Library/Caches''"
  by (simp add: path_defs demoCfg_def)

lemma demo_stages:
  "runStages (scanStages (Suc 0) (demoP known) demoCfg demoClock demoFiles [''user-caches'']
      \<lparr>minBytes = 52428800, olderDays = 30\<rparr>) [] = Some [bigItem]"
  unfolding scanStages_def Let_def
  by (simp add: whenCat_def demo_caches_path demo_exists demo_walk)

lemma demo_home: "HOME demoCfg = ''/Users/u''"
  by (simp add: demoCfg_def)

lemma demo_access: "access (demoP known) demoFiles p = existsSync (demoP known) demoFiles p"
  by (simp add: demoP_def)

lemma default_stages:
  "runStages (scanStages (Suc 0) (demoP known) demoCfg demoClock demoFiles
      [''user-caches'', ''browsers'', ''dev'', ''pkg'']
      \<lparr>minBytes = 52428800, olderDays = 30\<rparr>) [] = Some [bigItem]"
  unfolding scanStages_def Let_def
  by (simp add: whenCat_def brewStage_def brewPath_def demo_access demo_exists demo_walk demo_home
      path_join_def path_normalize_def normalizeString_def isAbsolute_def split_sep_def join_sep_def)

lemma demo_clock:
  "now demoClock = 1700000000000" "nowIso demoClock = ''2023-11-14T22:13:20.000Z''"
  by (simp_all add: demoClock_def)

lemma demo_arith:
  "js_sub (demoP k) a b = a - b" "js_mul (demoP k) a b = a * b" "js_div (demoP k) a b = a / b"
  by (simp_all add: demoP_def)

lemma demo_scan:
  "scanHandler (Suc 0) (demoP known) demoCfg demoClock demoFiles Map.empty demoQuery
   = Some (demoReport,
           [scanKey (parseQuery (demoP known) demoQuery) \<mapsto> (now demoClock, demoReport)])"
  by (simp add: scanHandler_def Let_def demo_parse effectiveOpts_def effectiveCats_def demo_stages
      computeTotals_exact demoReport_def bigItem_def demo_home demo_clock)

lemma default_scan:
  "scanHandler (Suc 0) (demoP known) demoCfg demoClock demoFiles Map.empty noQuery
   = Some (defaultReport,
           [scanKey (parseQuery (demoP known) noQuery) \<mapsto> (now demoClock, defaultReport)])"
  by (simp add: scanHandler_def Let_def no_parse effectiveOpts_def effectiveCats_def default_stages
      computeTotals_exact defaultReport_def bigItem_def demo_home demo_clock
      DEFAULT_MIN_BYTES_def DEFAULT_OLDER_DAYS_def)

lemma demo_walk_all:
  "walkCollect (Suc 0) (demoP known) demoCfg demoClock demoFiles ''/Users/u/Library/Caches''
     \<lparr>minBytes = 0, olderDays = 0\<rparr> [] ''User Library cache'' ''user-caches''
   = Some [bigItem, smallItem]"
  by (simp add: walkCollect_def visitEntry_def scanItem_def bigItem_def smallItem_def path_defs deny_defs demo_defs)

lemma all_parse:
  "parseQuery (demoP known) allQuery =
     \<lparr>minSize = Some 0, olderThan = Some 0, q_include = Some [''user-caches''],
      q_exclude = None, downloads = False, dryRun = False, mode = ''trash''\<rparr>"
  by (simp add: parseQuery_def queryNumber_def queryList_def allQuery_def demoP_def
      demo_number_def trim_def is_space_def)

lemma all_scan:
  "scanHandler (Suc 0) (demoP known) demoCfg demoClock demoFiles Map.empty allQuery
   = Some (twoReport,
           [scanKey (parseQuery (demoP known) allQuery) \<mapsto> (now demoClock, twoReport)])"
proof -
  have st: "runStages (scanStages (Suc 0) (demoP known) demoCfg demoClock demoFiles [''user-caches'']
      \<lparr>minBytes = 0, olderDays = 0\<rparr>) [] = Some [bigItem, smallItem]"
    unfolding scanStages_def Let_def
    by (simp add: whenCat_def demo_caches_path demo_exists demo_walk_all)
  have t: "computeTotals [bigItem, smallItem] = \<lparr>count = 2, bytes_sum = 73400320\<rparr>"
    by (simp add: computeTotals_exact bigItem_def smallItem_def)
  show ?thesis
    by (simp add: scanHandler_def Let_def all_parse effectiveOpts_def effectiveCats_def st t
        twoReport_def demo_home demo_clock)
qed

lemma sparse_walk:
  "walkCollect (Suc 0) (demoP known) demoCfg demoClock sparseFiles ''/Users/u/Library/Caches''
     \<lparr>minBytes = 0, olderDays = 0\<rparr> [] ''User Library cache'' ''user-caches''
   = Some sparseItems"
  by (simp add: walkCollect_def visitEntry_def scanItem_def sparseItems_def path_defs deny_defs
      demoP_def sparseFiles_def demo_stats_def demo_follow_def demo_target_def demo_node_def
      demo_canon_def demo_readdir_def demoCfg_def demoClock_def List.map_filter_def)

lemma sparse_exists: "existsSync (demoP known) sparseFiles ''/Users/u/Library/Caches''"
  by (simp add: demoP_def sparseFiles_def demo_follow_def demo_target_def demo_node_def demo_canon_def)

lemma toDouble_odd: "toDouble 9007199254740993 = 9007199254740992"
  by (simp add: toDouble_def Let_def spacing.simps[of 9007199254740993] spacing_small)

lemma sparse_totals: "computeTotals sparseItems = \<lparr>count = 3, bytes_sum = 9007199254740992\<rparr>"
  by (simp add: computeTotals_def sparseItems_def js_plus_def toDouble_exact toDouble_odd)

lemma sparse_scan:
  "scanHandler (Suc 0) (demoP known) demoCfg demoClock sparseFiles Map.empty allQuery
   = Some (sparseReport,
           [scanKey (parseQuery (demoP known) allQuery) \<mapsto> (now demoClock, sparseReport)])"
proof -
  have st: "runStages (scanStages (Suc 0) (demoP known) demoCfg demoClock sparseFiles [''user-caches'']
      \<lparr>minBytes = 0, olderDays = 0\<rparr>) [] = Some sparseItems"
    unfolding scanStages_def Let_def
    by (simp add: whenCat_def demo_caches_path sparse_exists sparse_walk)
  show ?thesis
    by (simp add: scanHandler_def Let_def all_parse effectiveOpts_def effectiveCats_def st sparse_totals
        sparseReport_def demo_home demo_clock)
qed

section \<open>Claims about scan reports\<close>

lemma scan_report_ok:
  assumes "reachable_cache P cfg cache" and "scanHandler n P cfg clk fs cache rq = Some (body, cache')"
  shows "report_ok cfg body"
  using scanHandler_ok[OF reachable_cache_ok[OF assms(1)] assms(2)] by simp

text \<open>
  Claim C1. Every item of every report a scan call returns, fresh or served from the cache,
  has a path that resolves strictly under the home root and under no deny-listed subtree,
  whatever the query asked for: it passes the server's own two checks, and with them the
  checks as the specification words them.
\<close>

theorem scan_items_within_scope:
  assumes "reachable_cache P cfg cache"
    and "scanHandler n P cfg clk fs cache rq = Some (body, cache')"
    and "it \<in> set (items body)"
  shows "ensureHomeScoped cfg (path it) \<and> \<not> isDenyListed cfg (path it)
       \<and> spec_isInHomeScope cfg (path it) \<and> \<not> spec_isDenyListed cfg (path it)"
proof -
  have "scoped_ok cfg it"
    using scan_report_ok[OF assms(1,2)] assms(3) by (simp add: report_ok_def list_all_iff)
  then show ?thesis
    using scoped_implies_spec_scope spec_deny_implies_isDenyListed
    by (auto simp: scoped_ok_def)
qed

theorem scan_items_within_scope_witness:
  "reachable_cache (demoP []) demoCfg Map.empty
   \<and> scanHandler (Suc 0) (demoP []) demoCfg demoClock demoFiles Map.empty demoQuery
       = Some (demoReport,
               [scanKey (parseQuery (demoP []) demoQuery) \<mapsto> (now demoClock, demoReport)])
   \<and> items demoReport = [bigItem]
   \<and> ensureHomeScoped demoCfg (path bigItem) \<and> \<not> isDenyListed demoCfg (path bigItem)
   \<and> spec_isInHomeScope demoCfg (path bigItem) \<and> \<not> spec_isDenyListed demoCfg (path bigItem)"
proof -
  have its: "items demoReport = [bigItem]" by (simp add: demoReport_def)
  have "bigItem \<in> set (items demoReport)" by (simp add: its)
  from scan_items_within_scope[OF reachable_cache.at_start demo_scan this]
  show ?thesis using reachable_cache.at_start[of "demoP []" demoCfg] demo_scan[of "[]"] its by simp
qed

text \<open>
  Claim C6 (amended). In every report a scan call returns, fresh or served from the cache,
  \<open>totals.count\<close> is the number of items, and \<open>totals.bytes\<close> is what adding the items'
  \<open>bytes\<close> one after the other in double arithmetic gives; that is their sum whenever the
  sum is at most \<open>2^53 = 9007199254740992\<close>.
\<close>

theorem report_totals_match_items:
  assumes "reachable_cache P cfg cache"
    and "scanHandler n P cfg clk fs cache rq = Some (body, cache')"
  shows "count (totals body) = length (items body)
       \<and> totals body = computeTotals (items body)
       \<and> (sum_list (map bytes (items body)) \<le> 9007199254740992 \<longrightarrow>
            bytes_sum (totals body) = sum_list (map bytes (items body)))"
proof -
  have t: "totals body = computeTotals (items body)"
    using scan_report_ok[OF assms] by (simp add: report_ok_def)
  show ?thesis using t computeTotals_count[of "items body"] computeTotals_exact[of "items body"]
    by simp
qed

theorem report_totals_match_items_witness:
  "reachable_cache (demoP []) demoCfg Map.empty
   \<and> scanHandler (Suc 0) (demoP []) demoCfg demoClock demoFiles Map.empty allQuery
       = Some (twoReport,
               [scanKey (parseQuery (demoP []) allQuery) \<mapsto> (now demoClock, twoReport)])
   \<and> map bytes (items twoReport) = [62914560, 10485760]
   \<and> sum_list (map bytes (items twoReport)) \<le> 9007199254740992
   \<and> totals twoReport = computeTotals (items twoReport)
   \<and> bytes_sum (totals twoReport) = sum_list (map bytes (items twoReport))
   \<and> bytes_sum (totals twoReport) = 73400320
   \<and> count (totals twoReport) = 2 \<and> length (items twoReport) = 2"
proof -
  have its: "map bytes (items twoReport) = [62914560, 10485760]"
    by (simp add: twoReport_def bigItem_def smallItem_def)
  have le: "sum_list (map bytes (items twoReport)) \<le> 9007199254740992" by (simp add: its)
  note totals_ok = report_totals_match_items[OF reachable_cache.at_start all_scan[of "[]"]]
  have t: "totals twoReport = computeTotals (items twoReport)" using totals_ok by blast
  have b: "bytes_sum (totals twoReport) = sum_list (map bytes (items twoReport))"
    using totals_ok le by blast
  have v: "bytes_sum (totals twoReport) = 73400320" "count (totals twoReport) = 2"
    "length (items twoReport) = 2"
    by (simp_all add: twoReport_def)
  show ?thesis
    using reachable_cache.at_start[of "demoP []" demoCfg] all_scan[of "[]"] its le t b v by blast
qed

theorem sparse_totals_counterexample:
  "reachable_cache (demoP []) demoCfg Map.empty
   \<and> scanHandler (Suc 0) (demoP []) demoCfg demoClock sparseFiles Map.empty allQuery
       = Some (sparseReport,
               [scanKey (parseQuery (demoP []) allQuery) \<mapsto> (now demoClock, sparseReport)])
   \<and> map bytes (items sparseReport) = [9007199254740992, 1, 1]
   \<and> sum_list (map bytes (items sparseReport)) = 9007199254740994
   \<and> bytes_sum (totals sparseReport) = 9007199254740992"
  using reachable_cache.at_start[of "demoP []" demoCfg] sparse_scan[of "[]"]
  by (simp add: sparseReport_def sparseItems_def)

section \<open>The apply loop\<close>

lemma applyItem_denied:
  "isDenyListed cfg p \<Longrightarrow>
   applyItem P cfg clk dry md s p = s\<lparr>details := details s @ [(p, deny_verdict P cfg (fsys s) p)]\<rparr>"
  by (simp add: applyItem_def deny_verdict_def)

lemma applyItem_dry:
  "applyItem P cfg clk True md s p =
     s\<lparr>details := details s @ [(p, dry_verdict P cfg md (fsys s) p)],
       totalBytes := add_counted (totalBytes s) (p, dry_verdict P cfg md (fsys s) p),
       counted := counted s + (if counted_status (dry_verdict P cfg md (fsys s) p) then 1 else 0)\<rparr>"
  by (simp add: applyItem_def dry_verdict_def add_counted_def Let_def)

lemma safeTrashMove_no_rm: "list_all (\<lambda>c. \<not> is_rm c) (snd (snd (safeTrashMove P cfg clk fs p)))"
  by (auto simp: safeTrashMove_def ensureTrashDir_def Let_def split: prod.splits option.splits)

lemma tryMutate_entry:
  "tryMutate P cfg clk md fs p st = (Inr entry, fs', cs) \<Longrightarrow>
   counted_status entry
   \<and> status_bytes entry = (case st of None \<Rightarrow> 0 | Some x \<Rightarrow> st_size x)
   \<and> (md \<noteq> ''delete'' \<longrightarrow> \<not> is_deleted entry)"
  by (auto simp: tryMutate_def Let_def split: if_splits prod.splits option.splits sum.splits)

lemma tryMutate_no_rm:
  "md \<noteq> ''delete'' \<Longrightarrow> list_all (\<lambda>c. \<not> is_rm c) (snd (snd (tryMutate P cfg clk md fs p st)))"
  using safeTrashMove_no_rm[of P cfg clk fs p]
  by (auto simp: tryMutate_def Let_def split: prod.splits sum.splits)

lemma applyItem_shape:
  "\<exists>st fs' cs. applyItem P cfg clk dry md s p =
     s\<lparr>fsys := fs', calls := calls s @ cs, details := details s @ [(p, st)],
       totalBytes := add_counted (totalBytes s) (p, st),
       counted := counted s + (if counted_status st then 1 else 0)\<rparr>
     \<and> (md \<noteq> ''delete'' \<longrightarrow> list_all (\<lambda>c. \<not> is_rm c) cs \<and> \<not> is_deleted st)
     \<and> (dry \<longrightarrow> fs' = fsys s \<and> cs = [])"
proof (cases "p = [] \<or> \<not> existsSync P (fsys s) p \<or> \<not> ensureHomeScoped cfg p \<or> isDenyListed cfg p")
  case True
  then have "\<exists>st. applyItem P cfg clk dry md s p = s\<lparr>details := details s @ [(p, st)]\<rparr>
      \<and> \<not> counted_status st \<and> \<not> is_deleted st"
    by (auto simp: applyItem_def)
  then obtain st where a: "applyItem P cfg clk dry md s p = s\<lparr>details := details s @ [(p, st)]\<rparr>"
    and b: "\<not> counted_status st" "\<not> is_deleted st" by blast
  show ?thesis
    apply (rule exI[of _ st], rule exI[of _ "fsys s"], rule exI[of _ "[]"])
    using a b by (simp add: add_counted_def)
next
  case False
  note ok = this
  show ?thesis
  proof (cases dry)
    case True
    show ?thesis
      apply (rule exI[of _ "dry_verdict P cfg md (fsys s) p"], rule exI[of _ "fsys s"], rule exI[of _ "[]"])
      using True applyItem_dry[of P cfg clk md s p] by (auto simp: dry_verdict_def)
  next
    case False
    obtain r fs' cs where m: "tryMutate P cfg clk md (fsys s) p (statSync P (fsys s) p) = (r, fs', cs)"
      by (cases "tryMutate P cfg clk md (fsys s) p (statSync P (fsys s) p)")
    have cs: "md \<noteq> ''delete'' \<longrightarrow> list_all (\<lambda>c. \<not> is_rm c) cs"
      using tryMutate_no_rm[of md P cfg clk "fsys s" p "statSync P (fsys s) p"] m by simp
    show ?thesis
    proof (cases r)
      case (Inl e)
      show ?thesis
        apply (rule exI[of _ "Error e"], rule exI[of _ fs'], rule exI[of _ cs])
        using ok False m Inl cs by (simp add: applyItem_def Let_def add_counted_def)
    next
      case (Inr entry)
      have e: "counted_status entry"
        "status_bytes entry = (case statSync P (fsys s) p of None \<Rightarrow> 0 | Some x \<Rightarrow> st_size x)"
        "md \<noteq> ''delete'' \<longrightarrow> \<not> is_deleted entry"
        using tryMutate_entry[OF m[unfolded Inr]] by simp_all
      show ?thesis
        apply (rule exI[of _ entry], rule exI[of _ fs'], rule exI[of _ cs])
        using ok False m Inr cs e by (simp add: applyItem_def Let_def add_counted_def)
    qed
  qed
qed

lemma readable_Cons: "readable P (it # its) \<longleftrightarrow> itemPath P it \<noteq> None \<and> readable P its"
  by (simp add: readable_def)



lemma applyLoop_effect:
  "\<exists>new cs. details (loop_state (applyLoop P cfg clk dry md s its)) = details s @ new
     \<and> calls (loop_state (applyLoop P cfg clk dry md s its)) = calls s @ cs
     \<and> counted (loop_state (applyLoop P cfg clk dry md s its))
         = counted s + length (filter (\<lambda>d. counted_status (snd d)) new)
     \<and> totalBytes (loop_state (applyLoop P cfg clk dry md s its))
         = foldl add_counted (totalBytes s) new
     \<and> (md \<noteq> ''delete'' \<longrightarrow> list_all (\<lambda>c. \<not> is_rm c) cs \<and> list_all (\<lambda>d. \<not> is_deleted (snd d)) new)
     \<and> (dry \<longrightarrow> fsys (loop_state (applyLoop P cfg clk dry md s its)) = fsys s \<and> cs = [])
     \<and> (readable P its \<longrightarrow>
          applyLoop P cfg clk dry md s its = Inr (loop_state (applyLoop P cfg clk dry md s its))
          \<and> map fst new = map (\<lambda>it. the (itemPath P it)) its)"
proof (induction its arbitrary: s)
  case Nil
  show ?case by (simp add: loop_state_def)
next
  case (Cons it its)
  show ?case
  proof (cases "itemPath P it")
    case None
    then show ?thesis by (simp add: loop_state_def readable_Cons)
  next
    case (Some p)
    obtain st fs' cs where a: "applyItem P cfg clk dry md s p =
        s\<lparr>fsys := fs', calls := calls s @ cs, details := details s @ [(p, st)],
          totalBytes := add_counted (totalBytes s) (p, st),
          counted := counted s + (if counted_status st then 1 else 0)\<rparr>"
      and b: "md \<noteq> ''delete'' \<longrightarrow> list_all (\<lambda>c. \<not> is_rm c) cs \<and> \<not> is_deleted st"
      and c: "dry \<longrightarrow> fs' = fsys s \<and> cs = []"
      using applyItem_shape[of P cfg clk dry md s p] by blast
    let ?s1 = "applyItem P cfg clk dry md s p"
    let ?r = "loop_state (applyLoop P cfg clk dry md ?s1 its)"
    obtain new cs' where d: "details ?r = details ?s1 @ new" "calls ?r = calls ?s1 @ cs'"
      "counted ?r = counted ?s1 + length (filter (\<lambda>d. counted_status (snd d)) new)"
      "totalBytes ?r = foldl add_counted (totalBytes ?s1) new"
      "md \<noteq> ''delete'' \<longrightarrow> list_all (\<lambda>c. \<not> is_rm c) cs' \<and> list_all (\<lambda>d. \<not> is_deleted (snd d)) new"
      "dry \<longrightarrow> fsys ?r = fsys ?s1 \<and> cs' = []"
      "readable P its \<longrightarrow> applyLoop P cfg clk dry md ?s1 its = Inr ?r
          \<and> map fst new = map (\<lambda>it. the (itemPath P it)) its"
      using Cons.IH[of ?s1] by blast
    have step: "applyLoop P cfg clk dry md s (it # its) = applyLoop P cfg clk dry md ?s1 its"
      using Some by simp
    have s1: "details ?s1 = details s @ [(p, st)]" "calls ?s1 = calls s @ cs"
      "counted ?s1 = counted s + (if counted_status st then 1 else 0)"
      "totalBytes ?s1 = add_counted (totalBytes s) (p, st)" "fsys ?s1 = fs'"
      by (simp_all add: a)
    have "details ?r = details s @ ((p, st) # new)" using d(1) s1(1) by simp
    moreover have "calls ?r = calls s @ (cs @ cs')" using d(2) s1(2) by simp
    moreover have "counted ?r = counted s + length (filter (\<lambda>d. counted_status (snd d)) ((p, st) # new))"
      using d(3) s1(3) by simp
    moreover have "totalBytes ?r = foldl add_counted (totalBytes s) ((p, st) # new)"
      using d(4) s1(4) by simp
    moreover have "md \<noteq> ''delete'' \<longrightarrow> list_all (\<lambda>c. \<not> is_rm c) (cs @ cs')
        \<and> list_all (\<lambda>d. \<not> is_deleted (snd d)) ((p, st) # new)"
      using d(5) b by simp
    moreover have "dry \<longrightarrow> fsys ?r = fsys s \<and> cs @ cs' = []"
      using d(6) c s1(5) by (cases dry) simp_all
    moreover have "readable P (it # its) \<longrightarrow> applyLoop P cfg clk dry md ?s1 its = Inr ?r
          \<and> map fst ((p, st) # new) = map (\<lambda>it. the (itemPath P it)) (it # its)"
      using d(7) Some by (simp add: readable_Cons)
    ultimately show ?thesis
      unfolding step by blast
  qed
qed

lemma applyHandler_rejects:
  "planItems (readJsonBody P body) = None \<Longrightarrow>
   applyHandler P cfg clk fs cache rq body =
     \<lparr>response = BadRequest ''Invalid plan JSON; expected { items: [ { path, category } ] }'',
      fs_after = fs, cache_after = cache, fs_calls = []\<rparr>"
  by (simp add: applyHandler_def)

lemma applyHandler_runs:
  assumes "planItems (readJsonBody P body) = Some its"
  shows "fs_after (applyHandler P cfg clk fs cache rq body)
           = fsys (loop_state (applyLoop P cfg clk (dryRun (parseQuery P rq)) (mode (parseQuery P rq)) (applyStart fs) its))"
    and "fs_calls (applyHandler P cfg clk fs cache rq body)
           = calls (loop_state (applyLoop P cfg clk (dryRun (parseQuery P rq)) (mode (parseQuery P rq)) (applyStart fs) its))"
    and "applyLoop P cfg clk (dryRun (parseQuery P rq)) (mode (parseQuery P rq)) (applyStart fs) its = Inr s \<Longrightarrow>
         applyHandler P cfg clk fs cache rq body
           = \<lparr>response = Ok200 \<lparr>s_count = counted s, s_bytes = totalBytes s,
                                  s_dryRun = dryRun (parseQuery P rq), s_mode = mode (parseQuery P rq)\<rparr>
                          (details s),
              fs_after = fsys s, cache_after = Map.empty, fs_calls = calls s\<rparr>"
    and "\<And>sm ds. response (applyHandler P cfg clk fs cache rq body) = Ok200 sm ds \<Longrightarrow>
         s_mode sm = mode (parseQuery P rq)
         \<and> ds = details (loop_state (applyLoop P cfg clk (dryRun (parseQuery P rq)) (mode (parseQuery P rq)) (applyStart fs) its))"
  using assms by (auto simp: applyHandler_def Let_def loop_state_def split: sum.splits)


section \<open>Apply runs on the fixtures\<close>

lemma demo_body:
  "readJsonBody (demoP demoBodies) docsPlan = JObj [(''items'', JArr [JObj [(''path'', JStr ''/Users/u/Documents/thesis.txt''),
                                              (''category'', JStr ''downloads'')]])]"
  "readJsonBody (demoP demoBodies) gonePlan = JObj [(''items'', JArr [JObj [(''path'', JStr ''/Users/u/Documents/gone.txt''),
                                              (''category'', JStr ''downloads'')]])]"
  "readJsonBody (demoP demoBodies) cachesPlan = JObj [(''items'', JArr [JObj [(''path'', JStr ''/Users/u/Library/Caches/big.bin'')],
                                           JObj [(''path'', JStr ''/Users/u/Library/Caches/small.bin'')]])]"
  "readJsonBody (demoP demoBodies) linkPlan = JObj [(''items'', JArr [JObj [(''path'', JStr ''/Users/u/Library/Caches/lnk''),
                                              (''category'', JStr ''user-caches'')]])]"
  "readJsonBody (demoP demoBodies) textPlan = JNull"
  "readJsonBody (demoP demoBodies) mailPlan = JObj [(''items'', JArr [JObj [(''path'', JStr ''/Users/u/Library/Mail/inbox.mbox'')],
                                         JObj [(''path'', JStr ''/Users/u/Library'')]])]"
  "readJsonBody (demoP demoBodies) nullPlan = JObj [(''items'', JArr [JObj [(''path'', JStr ''/Users/u/Library/Caches/big.bin'')],
                                         JNull])]"
  "readJsonBody (demoP demoBodies) brokenPlan = JObj [(''items'', JArr [JObj [(''path'', JStr ''/Users/u/Library/Caches/big.bin'')],
                                           JNull,
                                           JObj [(''path'', JStr ''/Users/u/Library/Caches/small.bin'')]])]"
  by (simp_all add: readJsonBody_def demoP_def demoBodies_def docsPlan_def gonePlan_def cachesPlan_def
      linkPlan_def textPlan_def mailPlan_def nullPlan_def brokenPlan_def trim_def is_space_def)

lemma demo_policy:
  "ensureHomeScoped demoCfg ''/Users/u/Documents/thesis.txt''"
  "isDenyListed demoCfg ''/Users/u/Documents/thesis.txt''"
  "isDenyListed demoCfg ''/Users/u/Documents/gone.txt''"
  "ensureHomeScoped demoCfg ''/Users/u/Library/Caches/big.bin''"
  "\<not> isDenyListed demoCfg ''/Users/u/Library/Caches/big.bin''"
  "ensureHomeScoped demoCfg ''/Users/u/Library/Caches/small.bin''"
  "\<not> isDenyListed demoCfg ''/Users/u/Library/Caches/small.bin''"
  "ensureHomeScoped demoCfg ''/Users/u/Library/Caches/lnk''"
  "\<not> isDenyListed demoCfg ''/Users/u/Library/Caches/lnk''"
  by (simp_all add: path_defs deny_defs demoCfg_def)


lemma demo_stat:
  "statSync (demoP known) demoFiles ''/Users/u/Library/Caches/big.bin''
     = Some \<lparr>st_type = RegularFile, st_size = 62914560, st_mtimeMs = 1696544000000\<rparr>"
  "statSync (demoP known) demoFiles ''/Users/u/Library/Caches/small.bin''
     = Some \<lparr>st_type = RegularFile, st_size = 10485760, st_mtimeMs = 1696544000000\<rparr>"
  "statSync (demoP known) demoFiles ''/Users/u/Library/Caches/lnk''
     = Some \<lparr>st_type = RegularFile, st_size = 62914560, st_mtimeMs = 1696544000000\<rparr>"
  by (simp_all add: demoP_def demoFiles_def demo_follow_def demo_target_def demo_node_def
      demo_canon_def demo_stats_def)

lemma itemPath_throws:
  "itemPath P JNull = None"
  "itemPath P (JObj [(''path'', JObj [(''toString'', JNum 1)])]) = None"
  "itemPath P (JObj [(''path'', JArr [JObj [(''toString'', JNum 1)]])]) = None"
  "itemPath P (JObj [(''path'', JObj [(''valueOf'', JNum 1)])]) = Some ''[object Object]''"
  "itemPath P (JObj [(''path'', JStr s)]) = Some s"
  "itemPath P (JNum 5) = Some []"
  by (simp_all add: itemPath_def)

section \<open>Claims about apply\<close>






subsection \<open>More runs on the fixtures\<close>

lemma demoP_sel:
  "readdir (demoP k) = demo_readdir"
  "lstat (demoP k) fs p = map_option demo_stats (demo_node fs p)"
  "statSync (demoP k) fs p = map_option demo_stats (demo_follow fs p)"
  "existsSync (demoP k) fs p = (demo_follow fs p \<noteq> None)"
  "access (demoP k) fs p = (demo_follow fs p \<noteq> None)"
  "mkdirSync (demoP k) fs p = (None, fs\<lparr>nodes := nodes fs @ [(p, DirNode)]\<rparr>)"
  "renameSync (demoP k) fs p dest =
     (if demo_canon fs p \<in> set (locked fs) \<or> demo_node fs p = None
      then (Some ''Error: EACCES: permission denied, rename'', fs)
      else (None, demo_rename fs (demo_canon fs p) (demo_canon fs dest)))"
  "rmSync (demoP k) fs p recursive =
     (if demo_canon fs p \<in> set (locked fs) then (Some ''Error: EACCES: permission denied, rm'', fs)
      else (None, demo_remove fs (demo_canon fs p)))"
  "JSON_parse (demoP k) = map_of k"
  by (simp_all add: demoP_def)

lemma demo_trash_paths:
  "path_join [HOME demoCfg, ''.Trash''] = ''/Users/u/.Trash''"
  "path_join [''/Users/u/.Trash'', ''big.bin''] = ''/Users/u/.Trash/big.bin''"
  "path_join [''/Users/u/.Trash'', ''small.bin''] = ''/Users/u/.Trash/small.bin''"
  "path_join [''/Users/u/.Trash'', ''lnk''] = ''/Users/u/.Trash/lnk''"
  "path_basename ''/Users/u/Library/Caches/big.bin'' = ''big.bin''"
  "path_basename ''/Users/u/Library/Caches/small.bin'' = ''small.bin''"
  "path_basename ''/Users/u/Library/Caches/lnk'' = ''lnk''"
  by (simp_all add: path_join_def path_normalize_def normalizeString_def isAbsolute_def
      split_sep_def join_sep_def path_basename_def demo_home)

lemma demo_stamp: "trashStamp (nowIso demoClock) = ''2023-11-14-2213''"
  by (simp add: trashStamp_def demo_clock)

lemma locked_move_big:
  "safeTrashMove (demoP k) demoCfg demoClock lockedFiles ''/Users/u/Library/Caches/big.bin''
   = (Inl ''Error: EACCES: permission denied, rename'', lockedFiles1,
      [MkdirCall ''/Users/u/.Trash'',
       RenameCall ''/Users/u/Library/Caches/big.bin'' ''/Users/u/.Trash/big.bin''])"
  by (simp add: safeTrashMove_def ensureTrashDir_def Let_def demo_trash_paths demoP_sel
      lockedFiles1_def lockedFiles_def demoFiles_def demo_follow_def demo_target_def
      demo_node_def demo_canon_def)

lemma demo_canon_locked: "demo_canon (fs\<lparr>locked := l\<rparr>) p = demo_canon fs p"
  by (simp add: demo_canon_def)

lemma demo_node_locked: "demo_node (fs\<lparr>locked := l\<rparr>) p = demo_node fs p"
  by (simp add: demo_node_def demo_canon_locked)

lemma demo_follow_locked: "demo_follow (fs\<lparr>locked := l\<rparr>) p = demo_follow fs p"
  by (simp add: demo_follow_def demo_target_def demo_node_locked demo_canon_locked
      cong: option.case_cong node.case_cong)

lemma locked_exists:
  "existsSync (demoP k) lockedFiles p = existsSync (demoP k) demoFiles p"
  "statSync (demoP k) lockedFiles p = statSync (demoP k) demoFiles p"
  by (simp_all add: demoP_sel lockedFiles_def demo_follow_locked)

lemma locked1_lookup:
  "existsSync (demoP k) lockedFiles1 ''/Users/u/Library/Caches/small.bin''"
  "statSync (demoP k) lockedFiles1 ''/Users/u/Library/Caches/small.bin''
     = Some \<lparr>st_type = RegularFile, st_size = 10485760, st_mtimeMs = 1696544000000\<rparr>"
  "existsSync (demoP k) lockedFiles1 ''/Users/u/.Trash''"
  "\<not> existsSync (demoP k) lockedFiles1 ''/Users/u/.Trash/small.bin''"
  "demo_canon lockedFiles1 ''/Users/u/Library/Caches/small.bin'' \<notin> set (locked lockedFiles1)"
  "demo_node lockedFiles1 ''/Users/u/Library/Caches/small.bin'' \<noteq> None"
  "demo_canon lockedFiles1 ''/Users/u/Library/Caches/small.bin'' = ''/Users/u/Library/Caches/small.bin''"
  "demo_canon lockedFiles1 ''/Users/u/.Trash/small.bin'' = ''/Users/u/.Trash/small.bin''"
  by (simp_all add: demoP_sel lockedFiles1_def lockedFiles_def demoFiles_def demo_follow_def
      demo_target_def demo_node_def demo_canon_def demo_stats_def)

lemma locked_move_small:
  "safeTrashMove (demoP k) demoCfg demoClock lockedFiles1 ''/Users/u/Library/Caches/small.bin''
   = (Inr ''/Users/u/.Trash/small.bin'',
      demo_rename lockedFiles1 ''/Users/u/Library/Caches/small.bin'' ''/Users/u/.Trash/small.bin'',
      [RenameCall ''/Users/u/Library/Caches/small.bin'' ''/Users/u/.Trash/small.bin''])"
  using locked1_lookup(5,6)
  by (simp add: safeTrashMove_def ensureTrashDir_def Let_def demo_trash_paths locked1_lookup
      demoP_sel(7))

lemma locked_try_big:
  "tryMutate (demoP k) demoCfg demoClock ''trash'' lockedFiles ''/Users/u/Library/Caches/big.bin'' st
   = (Inl ''Error: EACCES: permission denied, rename'', lockedFiles1,
      [MkdirCall ''/Users/u/.Trash'',
       RenameCall ''/Users/u/Library/Caches/big.bin'' ''/Users/u/.Trash/big.bin''])"
  by (simp add: tryMutate_def locked_move_big)

lemma locked_try_small:
  "tryMutate (demoP k) demoCfg demoClock ''trash'' lockedFiles1 ''/Users/u/Library/Caches/small.bin''
     (Some \<lparr>st_type = RegularFile, st_size = 10485760, st_mtimeMs = 1696544000000\<rparr>)
   = (Inr (Trashed ''/Users/u/.Trash/small.bin'' 10485760),
      demo_rename lockedFiles1 ''/Users/u/Library/Caches/small.bin'' ''/Users/u/.Trash/small.bin'',
      [RenameCall ''/Users/u/Library/Caches/small.bin'' ''/Users/u/.Trash/small.bin''])"
  by (simp add: tryMutate_def locked_move_small)

lemma locked_trash_loop:
  "applyLoop (demoP k) demoCfg demoClock False ''trash'' (applyStart lockedFiles)
     [JObj [(''path'', JStr ''/Users/u/Library/Caches/big.bin'')],
      JObj [(''path'', JStr ''/Users/u/Library/Caches/small.bin'')]]
   = Inr \<lparr>fsys = demo_rename lockedFiles1 ''/Users/u/Library/Caches/small.bin'' ''/Users/u/.Trash/small.bin'',
          calls = [MkdirCall ''/Users/u/.Trash'',
                   RenameCall ''/Users/u/Library/Caches/big.bin'' ''/Users/u/.Trash/big.bin'',
                   RenameCall ''/Users/u/Library/Caches/small.bin'' ''/Users/u/.Trash/small.bin''],
          totalBytes = 10485760, counted = 1,
          details = [(''/Users/u/Library/Caches/big.bin'', Error ''Error: EACCES: permission denied, rename''),
                     (''/Users/u/Library/Caches/small.bin'', Trashed ''/Users/u/.Trash/small.bin'' 10485760)]\<rparr>"
  by (simp add: itemPath_def applyItem_def applyStart_def Let_def demo_policy locked_exists demo_exists
      demo_stat locked_try_big locked_try_small locked1_lookup js_plus_exact)



lemma locked_trash_handler:
  assumes "mode (parseQuery (demoP demoBodies) rq) = ''trash''" and "\<not> dryRun (parseQuery (demoP demoBodies) rq)"
  shows "applyHandler (demoP demoBodies) demoCfg demoClock lockedFiles cache rq cachesPlan
   = \<lparr>response = Ok200 \<lparr>s_count = 1, s_bytes = 10485760, s_dryRun = False, s_mode = ''trash''\<rparr>
         [(''/Users/u/Library/Caches/big.bin'', Error ''Error: EACCES: permission denied, rename''),
          (''/Users/u/Library/Caches/small.bin'', Trashed ''/Users/u/.Trash/small.bin'' 10485760)],
      fs_after = demo_rename lockedFiles1 ''/Users/u/Library/Caches/small.bin'' ''/Users/u/.Trash/small.bin'',
      cache_after = Map.empty,
      fs_calls = [MkdirCall ''/Users/u/.Trash'',
                   RenameCall ''/Users/u/Library/Caches/big.bin'' ''/Users/u/.Trash/big.bin'',
                   RenameCall ''/Users/u/Library/Caches/small.bin'' ''/Users/u/.Trash/small.bin'']\<rparr>"
proof -
  have d: "dryRun (parseQuery (demoP demoBodies) rq) = False" using assms(2) by simp
  show ?thesis
    unfolding applyHandler_def Let_def assms(1) d
    by (simp add: demo_body planItems_def locked_trash_loop del: applyLoop.simps)
qed


subsection \<open>Failure of one item\<close>






subsection \<open>The mode of a request\<close>

text \<open>
  Claim C10. The mode of a request is \<open>delete\<close> only when the query's \<open>mode\<close> is exactly the
  string \<open>delete\<close>; absent, empty, repeated or otherwise different, it is \<open>trash\<close>. In trash
  mode an apply call never issues \<open>rmSync\<close> and no item ends with status DELETED.
\<close>

theorem only_exact_delete_mode_deletes:
  "mode (parseQuery P rq) = (if rq ''mode'' = QStr ''delete'' then ''delete'' else ''trash'')
   \<and> (rq ''mode'' \<noteq> QStr ''delete'' \<longrightarrow>
        list_all (\<lambda>c. \<not> is_rm c) (fs_calls (applyHandler P cfg clk fs cache rq body))
        \<and> (\<forall>sm ds. response (applyHandler P cfg clk fs cache rq body) = Ok200 sm ds \<longrightarrow>
              s_mode sm = ''trash'' \<and> list_all (\<lambda>d. \<not> is_deleted (snd d)) ds))"
proof -
  have m: "mode (parseQuery P rq) = (if rq ''mode'' = QStr ''delete'' then ''delete'' else ''trash'')"
    by (simp add: parseQuery_def)
  have rest: "list_all (\<lambda>c. \<not> is_rm c) (fs_calls (applyHandler P cfg clk fs cache rq body))
        \<and> (\<forall>sm ds. response (applyHandler P cfg clk fs cache rq body) = Ok200 sm ds \<longrightarrow>
              s_mode sm = ''trash'' \<and> list_all (\<lambda>d. \<not> is_deleted (snd d)) ds)"
    if ne: "rq ''mode'' \<noteq> QStr ''delete''"
  proof (cases "planItems (readJsonBody P body)")
    case None
    then show ?thesis by (simp add: applyHandler_rejects)
  next
    case (Some its)
    have md: "mode (parseQuery P rq) = ''trash''" using m ne by simp
    let ?r = "loop_state (applyLoop P cfg clk (dryRun (parseQuery P rq)) ''trash'' (applyStart fs) its)"
    obtain new cs where e: "details ?r = details (applyStart fs) @ new"
      "calls ?r = calls (applyStart fs) @ cs"
      "list_all (\<lambda>c. \<not> is_rm c) cs \<and> list_all (\<lambda>d. \<not> is_deleted (snd d)) new"
      using applyLoop_effect[of P cfg clk "dryRun (parseQuery P rq)" "''trash''" "applyStart fs" its]
      by auto
    have "list_all (\<lambda>c. \<not> is_rm c) (fs_calls (applyHandler P cfg clk fs cache rq body))"
      using applyHandler_runs(2)[OF Some, of cfg clk fs cache rq] md e(2,3)
      by (simp add: applyStart_def)
    moreover have "s_mode sm = ''trash'' \<and> list_all (\<lambda>d. \<not> is_deleted (snd d)) ds"
      if "response (applyHandler P cfg clk fs cache rq body) = Ok200 sm ds" for sm ds
      using applyHandler_runs(4)[OF Some that] md e(1,3) by (simp add: applyStart_def)
    ultimately show ?thesis by blast
  qed
  show ?thesis using m rest by blast
qed

lemma shouted_parse:
  "parseQuery (demoP known) shoutedQuery =
     \<lparr>minSize = None, olderThan = None, q_include = None,
      q_exclude = None, downloads = False, dryRun = False, mode = ''trash''\<rparr>"
  by (simp add: parseQuery_def queryNumber_def queryList_def shoutedQuery_def)

theorem only_exact_delete_mode_deletes_witness:
  "shoutedQuery ''mode'' = QStr ''DELETE''
   \<and> mode (parseQuery (demoP demoBodies) shoutedQuery) = ''trash''
   \<and> list_all (\<lambda>c. \<not> is_rm c)
        (fs_calls (applyHandler (demoP demoBodies) demoCfg demoClock lockedFiles Map.empty shoutedQuery cachesPlan))
   \<and> applyHandler (demoP demoBodies) demoCfg demoClock lockedFiles Map.empty shoutedQuery cachesPlan
   = \<lparr>response = Ok200 \<lparr>s_count = 1, s_bytes = 10485760, s_dryRun = False, s_mode = ''trash''\<rparr>
         [(''/Users/u/Library/Caches/big.bin'', Error ''Error: EACCES: permission denied, rename''),
          (''/Users/u/Library/Caches/small.bin'', Trashed ''/Users/u/.Trash/small.bin'' 10485760)],
      fs_after = demo_rename lockedFiles1 ''/Users/u/Library/Caches/small.bin'' ''/Users/u/.Trash/small.bin'',
      cache_after = Map.empty,
      fs_calls = [MkdirCall ''/Users/u/.Trash'',
                   RenameCall ''/Users/u/Library/Caches/big.bin'' ''/Users/u/.Trash/big.bin'',
                   RenameCall ''/Users/u/Library/Caches/small.bin'' ''/Users/u/.Trash/small.bin'']\<rparr>"
proof -
  have ne: "shoutedQuery ''mode'' \<noteq> QStr ''delete''" by (simp add: shoutedQuery_def)
  have q: "mode (parseQuery (demoP demoBodies) shoutedQuery) = ''trash''"
    "\<not> dryRun (parseQuery (demoP demoBodies) shoutedQuery)"
    by (simp_all add: shouted_parse)
  from only_exact_delete_mode_deletes[of "demoP demoBodies" shoutedQuery demoCfg demoClock lockedFiles
      Map.empty cachesPlan] ne
  have "list_all (\<lambda>c. \<not> is_rm c)
        (fs_calls (applyHandler (demoP demoBodies) demoCfg demoClock lockedFiles Map.empty shoutedQuery cachesPlan))"
    by simp
  then show ?thesis
    using q(1) locked_trash_handler[OF q, of Map.empty] by (simp add: shoutedQuery_def)
qed

subsection \<open>Deny-listed items\<close>

lemma delete_parse:
  "parseQuery (demoP known) deleteQuery =
     \<lparr>minSize = None, olderThan = None, q_include = None,
      q_exclude = None, downloads = False, dryRun = False, mode = ''delete''\<rparr>"
  by (simp add: parseQuery_def queryNumber_def queryList_def deleteQuery_def)

lemma mail_policy:
  "ensureHomeScoped demoCfg ''/Users/u/Library/Mail/inbox.mbox''"
  "isDenyListed demoCfg ''/Users/u/Library/Mail/inbox.mbox''"
  "spec_isDenyListed demoCfg ''/Users/u/Library/Mail/inbox.mbox''"
  "ensureHomeScoped demoCfg ''/Users/u/Library''"
  "\<not> isDenyListed demoCfg ''/Users/u/Library''"
  "\<not> spec_isDenyListed demoCfg ''/Users/u/Library''"
  by (simp_all add: path_defs deny_defs spec_isDenyListed_def spec_deny_roots_def in_subtree_def
      demoCfg_def)

lemma mail_lookup:
  "existsSync (demoP k) mailFiles ''/Users/u/Library/Mail/inbox.mbox''"
  "existsSync (demoP k) mailFiles ''/Users/u/Library''"
  "statSync (demoP k) mailFiles ''/Users/u/Library''
     = Some \<lparr>st_type = Directory, st_size = 64, st_mtimeMs = 0\<rparr>"
  "rmSync (demoP k) mailFiles ''/Users/u/Library'' True
     = (None, \<lparr>nodes = [(''/Users/u'', DirNode)], locked = []\<rparr>)"
  "\<not> existsSync (demoP k) \<lparr>nodes = [(''/Users/u'', DirNode)], locked = []\<rparr>
       ''/Users/u/Library/Mail/inbox.mbox''"
  by (simp_all add: demoP_sel mailFiles_def demo_follow_def demo_target_def demo_node_def
      demo_canon_def demo_stats_def demo_remove_def)

lemma mail_delete_run:
  "applyHandler (demoP demoBodies) demoCfg demoClock mailFiles cache deleteQuery mailPlan
   = \<lparr>response = Ok200 \<lparr>s_count = 1, s_bytes = 64, s_dryRun = False, s_mode = ''delete''\<rparr>
         [(''/Users/u/Library/Mail/inbox.mbox'', Skipped ''deny_listed''),
          (''/Users/u/Library'', Deleted 64)],
      fs_after = \<lparr>nodes = [(''/Users/u'', DirNode)], locked = []\<rparr>, cache_after = Map.empty,
      fs_calls = [RmCall ''/Users/u/Library'' True]\<rparr>"
  unfolding applyHandler_def Let_def delete_parse
  by (simp add: demo_body planItems_def itemPath_def applyItem_def tryMutate_def applyStart_def
      mail_policy mail_lookup js_plus_exact Let_def)

text \<open>
  Claim C2. A delete-mode plan names the mailbox \<open>Library/Mail/inbox.mbox\<close>, which is
  deny-listed, and then \<open>Library\<close>, the directory above it, which \<open>isDenyListed\<close> does not
  hold for. The mailbox gets DENY\_LISTED; the next item then removes \<open>Library\<close> with
  \<open>rmSync\<close>, recursively, and the mailbox with it: after the call the path that was
  reported DENY\_LISTED no longer exists.
\<close>

theorem deny_listed_file_removed_with_ancestor:
  "spec_isDenyListed demoCfg ''/Users/u/Library/Mail/inbox.mbox''
   \<and> isDenyListed demoCfg ''/Users/u/Library/Mail/inbox.mbox''
   \<and> \<not> isDenyListed demoCfg ''/Users/u/Library''
   \<and> planItems (readJsonBody (demoP demoBodies) mailPlan)
       = Some [JObj [(''path'', JStr ''/Users/u/Library/Mail/inbox.mbox'')],
               JObj [(''path'', JStr ''/Users/u/Library'')]]
   \<and> existsSync (demoP demoBodies) mailFiles ''/Users/u/Library/Mail/inbox.mbox''
   \<and> applyHandler (demoP demoBodies) demoCfg demoClock mailFiles Map.empty deleteQuery mailPlan
       = \<lparr>response = Ok200 \<lparr>s_count = 1, s_bytes = 64, s_dryRun = False, s_mode = ''delete''\<rparr>
             [(''/Users/u/Library/Mail/inbox.mbox'', Skipped ''deny_listed''),
              (''/Users/u/Library'', Deleted 64)],
          fs_after = \<lparr>nodes = [(''/Users/u'', DirNode)], locked = []\<rparr>, cache_after = Map.empty,
          fs_calls = [RmCall ''/Users/u/Library'' True]\<rparr>
   \<and> \<not> existsSync (demoP demoBodies) \<lparr>nodes = [(''/Users/u'', DirNode)], locked = []\<rparr>
         ''/Users/u/Library/Mail/inbox.mbox''"
  using mail_policy(2,3,5) mail_lookup(1,5)[of demoBodies] mail_delete_run[of Map.empty]
  by (simp add: demo_body planItems_def)

section \<open>Symbolic links\<close>

lemma demo_lstat:
  "lstat (demoP known) demoFiles ''/Users/u/Library/Caches/lnk''
     = Some \<lparr>st_type = SymbolicLink, st_size = 31, st_mtimeMs = 0\<rparr>"
  "lstat (demoP known) demoFiles ''/Users/u/Library/Caches/small.bin''
     = Some \<lparr>st_type = RegularFile, st_size = 10485760, st_mtimeMs = 1696544000000\<rparr>"
  "lstat (demoP known) demoFiles ''/Users/u/Library/Caches/big.bin''
     = Some \<lparr>st_type = RegularFile, st_size = 62914560, st_mtimeMs = 1696544000000\<rparr>"
  by (simp_all add: demoP_sel demoFiles_def demo_stats_def demo_node_def demo_canon_def)

lemma demo_readdir_caches:
  "readdir (demoP known) demoFiles ''/Users/u/Library/Caches''
     = Some [\<lparr>d_name = ''big.bin'', d_type = RegularFile\<rparr>,
             \<lparr>d_name = ''small.bin'', d_type = RegularFile\<rparr>,
             \<lparr>d_name = ''lnk'', d_type = SymbolicLink\<rparr>]"
  by (simp add: demoP_sel demo_readdir_def demoFiles_def demo_follow_def demo_target_def
      demo_node_def demo_canon_def demo_stats_def List.map_filter_def)

lemma demo_locked: "locked demoFiles = []"
  by (simp add: demoFiles_def)

lemma link_delete_run:
  "applyHandler (demoP demoBodies) demoCfg demoClock demoFiles cache deleteQuery linkPlan
   = \<lparr>response = Ok200 \<lparr>s_count = 1, s_bytes = 62914560, s_dryRun = False, s_mode = ''delete''\<rparr>
         [(''/Users/u/Library/Caches/lnk'', Deleted 62914560)],
      fs_after = demo_remove demoFiles ''/Users/u/Library/Caches/lnk'', cache_after = Map.empty,
      fs_calls = [RmCall ''/Users/u/Library/Caches/lnk'' False]\<rparr>"
  unfolding applyHandler_def Let_def delete_parse
  by (simp add: demo_body planItems_def itemPath_def applyItem_def tryMutate_def applyStart_def
      demo_policy demo_exists demo_stat demoP_sel(8) demo_locked demo_canon_files js_plus_exact Let_def)

lemmas yarn_defs = demoP_def yarnFiles_def demo_stats_def demo_follow_def demo_target_def
  demo_node_def demo_canon_def demo_readdir_def demoCfg_def demoClock_def List.map_filter_def

lemma yarn_lookup:
  "lstat (demoP known) yarnFiles ''/Users/u/Library/Caches/Yarn''
     = Some \<lparr>st_type = SymbolicLink, st_size = 18, st_mtimeMs = 0\<rparr>"
  "lstat (demoP known) yarnFiles ''/Users/u/Library/Caches/Yarn/thesis.txt''
     = Some \<lparr>st_type = RegularFile, st_size = 2048, st_mtimeMs = 1696544000000\<rparr>"
  "readdir (demoP known) yarnFiles ''/Users/u/Library/Caches''
     = Some [\<lparr>d_name = ''Yarn'', d_type = SymbolicLink\<rparr>]"
  "readdir (demoP known) yarnFiles ''/Users/u/Library/Caches/Yarn''
     = Some [\<lparr>d_name = ''thesis.txt'', d_type = RegularFile\<rparr>]"
  by (simp_all add: yarn_defs)

lemma yarn_canon:
  "\<not> prefix ''/Users/u/Library/Caches/Yarn/'' p \<Longrightarrow> demo_canon yarnFiles p = p"
  by (simp add: demo_canon_def yarnFiles_def)

lemma yarn_exists:
  assumes "\<not> prefix ''/Users/u/Library/Caches/Yarn/'' p"
  shows "existsSync (demoP known) yarnFiles p =
     (p \<in> {''/Users/u'', ''/Users/u/Library'', ''/Users/u/Library/Caches'',
            ''/Users/u/Library/Caches/Yarn'', ''/Users/u/Documents'',
            ''/Users/u/Documents/thesis.txt''})"
proof -
  have c: "demo_canon yarnFiles p = p" using assms by (rule yarn_canon)
  have "existsSync (demoP known) yarnFiles p
      = ((case map_of (nodes yarnFiles) (case map_of (nodes yarnFiles) p of Some (LinkNode t) \<Rightarrow> t | _ \<Rightarrow> p) of
            Some (LinkNode t) \<Rightarrow> None | r \<Rightarrow> r) \<noteq> None)"
    by (simp add: demoP_def demo_follow_def demo_target_def demo_node_def c split: option.split node.split)
  also have "\<dots> = (p \<in> {''/Users/u'', ''/Users/u/Library'', ''/Users/u/Library/Caches'',
            ''/Users/u/Library/Caches/Yarn'', ''/Users/u/Documents'',
            ''/Users/u/Documents/thesis.txt''})"
    by (simp add: yarnFiles_def)
  finally show ?thesis .
qed

lemma yarn_access: "access (demoP known) yarnFiles p = existsSync (demoP known) yarnFiles p"
  by (simp add: demoP_def)

lemma yarn_walk_caches:
  "walkCollect (Suc 0) (demoP known) demoCfg demoClock yarnFiles ''/Users/u/Library/Caches''
     \<lparr>minBytes = 0, olderDays = 0\<rparr> acc ''User Library cache'' ''user-caches''
   = Some acc"
  by (simp add: walkCollect_def visitEntry_def path_defs deny_defs yarn_defs)

lemma yarn_walk_link:
  "walkCollect (Suc 0) (demoP known) demoCfg demoClock yarnFiles ''/Users/u/Library/Caches/Yarn''
     \<lparr>minBytes = 0, olderDays = 0\<rparr> acc ''Package manager cache'' ''pkg''
   = Some (acc @ [yarnItem])"
  by (simp add: walkCollect_def visitEntry_def scanItem_def yarnItem_def path_defs deny_defs yarn_defs)

lemma zero_parse:
  "parseQuery (demoP known) zeroQuery =
     \<lparr>minSize = Some 0, olderThan = Some 0, q_include = None,
      q_exclude = None, downloads = False, dryRun = False, mode = ''trash''\<rparr>"
  by (simp add: parseQuery_def queryNumber_def queryList_def zeroQuery_def demoP_def
      demo_number_def trim_def is_space_def)

lemma yarn_stages:
  "runStages (scanStages (Suc 0) (demoP known) demoCfg demoClock yarnFiles
      [''user-caches'', ''browsers'', ''dev'', ''pkg'']
      \<lparr>minBytes = 0, olderDays = 0\<rparr>) [] = Some [yarnItem]"
  unfolding scanStages_def Let_def
  by (simp add: whenCat_def brewStage_def brewPath_def yarn_access yarn_exists yarn_walk_caches
      yarn_walk_link demo_home
      path_join_def path_normalize_def normalizeString_def isAbsolute_def split_sep_def join_sep_def)

lemma yarn_scan:
  "scanHandler (Suc 0) (demoP known) demoCfg demoClock yarnFiles Map.empty zeroQuery
   = Some (yarnReport,
           [scanKey (parseQuery (demoP known) zeroQuery) \<mapsto> (now demoClock, yarnReport)])"
  by (simp add: scanHandler_def Let_def zero_parse effectiveOpts_def effectiveCats_def yarn_stages
      computeTotals_exact yarnReport_def yarnItem_def demo_home demo_clock)

text \<open>
  Claim C4. In a home directory where \<open>Library/Caches/Yarn\<close> is a symbolic link to
  \<open>Documents\<close>, the scan with the default categories meets the link twice. As an entry of
  \<open>Library/Caches\<close> it is skipped, \<open>lstat\<close> reporting a symbolic link. As the root of a
  walk of the category \<open>pkg\<close> it is handed to \<open>walkCollect\<close> after \<open>existsSync\<close> alone, which
  follows links: the walk reads the directory behind the link and the report lists
  \<open>Library/Caches/Yarn/thesis.txt\<close>, a path through a symbolic-link directory. And an apply
  call in delete mode removes a plan item that is a symbolic link: no check of the apply
  loop looks at the type of the path.
\<close>

theorem scan_descends_symlinked_root:
  "lstat (demoP demoBodies) yarnFiles ''/Users/u/Library/Caches/Yarn''
     = Some \<lparr>st_type = SymbolicLink, st_size = 18, st_mtimeMs = 0\<rparr>
   \<and> readdir (demoP demoBodies) yarnFiles ''/Users/u/Library/Caches''
       = Some [\<lparr>d_name = ''Yarn'', d_type = SymbolicLink\<rparr>]
   \<and> scanHandler (Suc 0) (demoP demoBodies) demoCfg demoClock yarnFiles Map.empty zeroQuery
       = Some (yarnReport,
               [scanKey (parseQuery (demoP demoBodies) zeroQuery) \<mapsto> (now demoClock, yarnReport)])
   \<and> map path (items yarnReport) = [''/Users/u/Library/Caches/Yarn/thesis.txt'']
   \<and> lstat (demoP demoBodies) demoFiles ''/Users/u/Library/Caches/lnk''
       = Some \<lparr>st_type = SymbolicLink, st_size = 31, st_mtimeMs = 0\<rparr>
   \<and> applyHandler (demoP demoBodies) demoCfg demoClock demoFiles Map.empty deleteQuery linkPlan
     = \<lparr>response = Ok200 \<lparr>s_count = 1, s_bytes = 62914560, s_dryRun = False, s_mode = ''delete''\<rparr>
           [(''/Users/u/Library/Caches/lnk'', Deleted 62914560)],
        fs_after = demo_remove demoFiles ''/Users/u/Library/Caches/lnk'', cache_after = Map.empty,
        fs_calls = [RmCall ''/Users/u/Library/Caches/lnk'' False]\<rparr>
   \<and> map_of (nodes (demo_remove demoFiles ''/Users/u/Library/Caches/lnk'')) ''/Users/u/Library/Caches/lnk''
       = None"
  using yarn_lookup(1,3)[of demoBodies] yarn_scan[of demoBodies] demo_lstat(1)[of demoBodies]
    link_delete_run[of Map.empty]
  by (simp add: yarnReport_def yarnItem_def demo_remove_def demoFiles_def)

section \<open>The scan filters\<close>

lemma walkCollect_found:
  assumes "walkCollect n P cfg clk fs base opts acc rsn cat = Some res" and "it \<in> set res"
  shows "it \<in> set acc \<or> found P cfg clk fs opts rsn cat base it"
proof -
  have run: "walkLoop n P cfg clk fs opts rsn cat [base] acc = Some res"
    using assms(1) by (simp add: walkCollect_def)
  have "\<forall>it \<in> set res. it \<in> set acc \<or> found P cfg clk fs opts rsn cat base it"
  proof (rule walkLoop_inv[where D = "walked P cfg fs base"
          and Q = "\<lambda>it. it \<in> set acc \<or> found P cfg clk fs opts rsn cat base it", OF _ _ run])
    show "\<forall>d\<in>set [base]. walked P cfg fs base d" by (simp add: walked_base)
    show "\<forall>it\<in>set acc. it \<in> set acc \<or> found P cfg clk fs opts rsn cat base it" by simp
  next
    fix current ents ent st
    assume "walked P cfg fs base current" "readdir P fs current = Some ents" "ent \<in> set ents"
      "ensureHomeScoped cfg (path_join [current, d_name ent])"
      "\<not> isDenyListed cfg (path_join [current, d_name ent])"
      "lstat P fs (path_join [current, d_name ent]) = Some st" "st_type st = Directory"
    then show "walked P cfg fs base (path_join [current, d_name ent])"
      by (rule walked_step[OF _ _ _ refl])
  next
    fix current ents ent st
    assume "walked P cfg fs base current" "readdir P fs current = Some ents" "ent \<in> set ents"
      "ensureHomeScoped cfg (path_join [current, d_name ent])"
      "\<not> isDenyListed cfg (path_join [current, d_name ent])"
      "lstat P fs (path_join [current, d_name ent]) = Some st" "st_type st = RegularFile"
      "spec_accepts P opts clk st"
    then have "found P cfg clk fs opts rsn cat base (scanItem P (path_join [current, d_name ent]) st rsn cat)"
      unfolding found_def by (auto simp: scanItem_def)
    then show "scanItem P (path_join [current, d_name ent]) st rsn cat \<in> set acc
        \<or> found P cfg clk fs opts rsn cat base (scanItem P (path_join [current, d_name ent]) st rsn cat)"
      by simp
  qed
  then show ?thesis using assms(2) by blast
qed

lemma walkCollect_scan_found:
  assumes "walkCollect n P cfg clk fs base opts acc rsn cat = Some res"
    and "list_all (scan_found P cfg clk fs opts) acc"
  shows "list_all (scan_found P cfg clk fs opts) res"
  unfolding list_all_iff
proof
  fix it assume "it \<in> set res"
  from walkCollect_found[OF assms(1) this] assms(2)
  show "scan_found P cfg clk fs opts it"
    by (auto simp: list_all_iff scan_found_def)
qed

lemma walkEach_scan_found:
  "stage_keeps (scan_found P cfg clk fs opts) (walkEach n P cfg clk fs opts rsn cat dirs)"
  unfolding stage_keeps_def
proof (induction dirs)
  case Nil
  then show ?case by simp
next
  case (Cons d ds)
  show ?case
  proof (intro allI impI)
    fix acc res
    assume run: "walkEach n P cfg clk fs opts rsn cat (d # ds) acc = Some res"
      and ok: "list_all (scan_found P cfg clk fs opts) acc"
    show "list_all (scan_found P cfg clk fs opts) res"
    proof (cases "existsSync P fs d")
      case False
      then show ?thesis using run ok Cons.IH by simp
    next
      case True
      then obtain mid where w: "walkCollect n P cfg clk fs d opts acc rsn cat = Some mid"
        and rest: "walkEach n P cfg clk fs opts rsn cat ds mid = Some res"
        using run by (auto split: option.splits)
      from walkCollect_scan_found[OF w ok] rest Cons.IH show ?thesis by blast
    qed
  qed
qed

lemma brewStage_scan_found:
  "stage_keeps (scan_found P cfg clk fs opts) (brewStage n P cfg clk fs opts)"
  unfolding stage_keeps_def brewStage_def Let_def
  by (auto split: option.splits if_splits dest: walkCollect_scan_found)

lemma scanStages_scan_found:
  "\<forall>stage \<in> set (scanStages n P cfg clk fs cats opts). stage_keeps (scan_found P cfg clk fs opts) stage"
  unfolding scanStages_def Let_def
  by (simp add: whenCat_keeps walkEach_scan_found brewStage_scan_found)

lemma fresh_scan_found:
  assumes "scanHandler n P cfg clk fs cache rq = Some (body, cache')"
    and "cache (scanKey (parseQuery P rq)) = None"
  shows "list_all (scan_found P cfg clk fs (effectiveOpts (parseQuery P rq))) (items body)"
proof -
  obtain its where r: "runStages (scanStages n P cfg clk fs (effectiveCats (parseQuery P rq))
        (effectiveOpts (parseQuery P rq))) [] = Some its"
    and b: "items body = its"
    using assms by (auto simp: scanHandler_def Let_def split: option.splits)
  show ?thesis using runStages_keeps[OF scanStages_scan_found r] b by simp
qed

text \<open>
  Claim C8 (amended). The filters are inclusive lower bounds on the effective values: a
  visited regular file that passes the scope and deny checks is pushed exactly when its size
  is at least \<open>minBytes\<close> (no constraint when \<open>minBytes\<close> is zero) and its age,
  \<open>Date.now() - mtimeMs\<close>, is at least \<open>olderDays * 86400 * 1000\<close> (no constraint when
  \<open>olderDays\<close> is zero or negative), the difference and the products as the engine computes
  them in doubles. Where these are exact, as for whole days and times in whole
  milliseconds, that is the bound in exact arithmetic: the age is at least \<open>olderDays\<close>
  days. A scan takes \<open>minBytes\<close> and \<open>olderDays\<close> from the query when \<open>Number\<close> of the
  parameter is finite and takes the defaults 52428800 bytes and 30 days otherwise, so
  also when the parameter is absent; every item of a freshly built report passed the
  filters with these effective values.
\<close>

theorem scan_filters_inclusive_bounds:
  "(ensureHomeScoped cfg (path_join [current, d_name ent])
      \<and> \<not> isDenyListed cfg (path_join [current, d_name ent])
      \<and> lstat P fs (path_join [current, d_name ent]) = Some st \<and> st_type st = RegularFile \<longrightarrow>
    visitEntry P cfg clk fs opts rsn cat current (stack, acc) ent
      = (stack, if (minBytes opts = 0 \<or> minBytes opts \<le> real (st_size st))
                   \<and> (olderDays opts \<le> 0
                        \<or> js_mul P (js_mul P (olderDays opts) 86400) 1000
                             \<le> js_sub P (now clk) (st_mtimeMs st))
                then acc @ [scanItem P (path_join [current, d_name ent]) st rsn cat] else acc))
   \<and> (js_mul P (js_mul P (olderDays opts) 86400) 1000 = olderDays opts * 86400000
        \<and> js_sub P (now clk) (st_mtimeMs st) = now clk - st_mtimeMs st \<longrightarrow>
      spec_accepts P opts clk st = exact_accepts opts clk st)
   \<and> effectiveOpts (parseQuery P rq)
       = \<lparr>minBytes = (case queryNumber P (rq ''minSize'') of None \<Rightarrow> 52428800 | Some v \<Rightarrow> v),
          olderDays = (case queryNumber P (rq ''olderThan'') of None \<Rightarrow> 30 | Some v \<Rightarrow> v)\<rparr>
   \<and> queryNumber P QAbsent = None
   \<and> (scanHandler n P cfg clk fs cache rq = Some (body, cache')
        \<and> cache (scanKey (parseQuery P rq)) = None \<longrightarrow>
      (\<forall>it \<in> set (items body). \<exists>st'. lstat P fs (path it) = Some st' \<and> bytes it = st_size st'
         \<and> (minBytes (effectiveOpts (parseQuery P rq)) = 0
              \<or> minBytes (effectiveOpts (parseQuery P rq)) \<le> real (bytes it))
         \<and> (olderDays (effectiveOpts (parseQuery P rq)) \<le> 0
              \<or> js_mul P (js_mul P (olderDays (effectiveOpts (parseQuery P rq))) 86400) 1000
                   \<le> js_sub P (now clk) (st_mtimeMs st'))))"
proof -
  have v: "visitEntry P cfg clk fs opts rsn cat current (stack, acc) ent
           = (stack, if (minBytes opts = 0 \<or> minBytes opts \<le> real (st_size st))
                        \<and> (olderDays opts \<le> 0
                             \<or> js_mul P (js_mul P (olderDays opts) 86400) 1000
                                  \<le> js_sub P (now clk) (st_mtimeMs st))
                     then acc @ [scanItem P (path_join [current, d_name ent]) st rsn cat] else acc)"
    if "ensureHomeScoped cfg (path_join [current, d_name ent])"
      "\<not> isDenyListed cfg (path_join [current, d_name ent])"
      "lstat P fs (path_join [current, d_name ent]) = Some st" "st_type st = RegularFile"
    using that by (auto simp: visitEntry_def Let_def)
  have x: "spec_accepts P opts clk st = exact_accepts opts clk st"
    if "js_mul P (js_mul P (olderDays opts) 86400) 1000 = olderDays opts * 86400000"
      "js_sub P (now clk) (st_mtimeMs st) = now clk - st_mtimeMs st"
    using that by (simp add: spec_accepts_def exact_accepts_def)
  have e: "effectiveOpts (parseQuery P rq)
           = \<lparr>minBytes = (case queryNumber P (rq ''minSize'') of None \<Rightarrow> 52428800 | Some v \<Rightarrow> v),
              olderDays = (case queryNumber P (rq ''olderThan'') of None \<Rightarrow> 30 | Some v \<Rightarrow> v)\<rparr>"
    by (simp add: effectiveOpts_def parseQuery_def DEFAULT_MIN_BYTES_def DEFAULT_OLDER_DAYS_def
        split: option.splits)
  have q: "queryNumber P QAbsent = None" by (simp add: queryNumber_def)
  have i: "\<exists>st'. lstat P fs (path it) = Some st' \<and> bytes it = st_size st'
             \<and> (minBytes (effectiveOpts (parseQuery P rq)) = 0
                  \<or> minBytes (effectiveOpts (parseQuery P rq)) \<le> real (bytes it))
             \<and> (olderDays (effectiveOpts (parseQuery P rq)) \<le> 0
                  \<or> js_mul P (js_mul P (olderDays (effectiveOpts (parseQuery P rq))) 86400) 1000
                       \<le> js_sub P (now clk) (st_mtimeMs st'))"
    if run: "scanHandler n P cfg clk fs cache rq = Some (body, cache')"
      and miss: "cache (scanKey (parseQuery P rq)) = None"
      and "it \<in> set (items body)" for it
  proof -
    have "scan_found P cfg clk fs (effectiveOpts (parseQuery P rq)) it"
      using fresh_scan_found[OF run miss] that(3) by (simp add: list_all_iff)
    then obtain st' where "lstat P fs (path it) = Some st'"
      "spec_accepts P (effectiveOpts (parseQuery P rq)) clk st'" "bytes it = st_size st'"
      unfolding scan_found_def found_def by (auto simp: scanItem_def)
    then show ?thesis unfolding spec_accepts_def by auto
  qed
  show ?thesis using v x e q i by blast
qed

lemma demo_entry_paths:
  "path_join [''/Users/u/Library/Caches'', ''small.bin''] = ''/Users/u/Library/Caches/small.bin''"
  "path_join [''/Users/u/Library/Caches'', ''big.bin''] = ''/Users/u/Library/Caches/big.bin''"
  by (simp_all add: path_join_def path_normalize_def normalizeString_def isAbsolute_def
      split_sep_def join_sep_def)

theorem scan_filters_inclusive_bounds_witness:
  "scanHandler (Suc 0) (demoP []) demoCfg demoClock demoFiles Map.empty demoQuery
     = Some (demoReport, [scanKey (parseQuery (demoP []) demoQuery) \<mapsto> (now demoClock, demoReport)])
   \<and> items demoReport = [bigItem]
   \<and> effectiveOpts (parseQuery (demoP []) demoQuery) = \<lparr>minBytes = 52428800, olderDays = 30\<rparr>
   \<and> lstat (demoP []) demoFiles ''/Users/u/Library/Caches/small.bin''
       = Some \<lparr>st_type = RegularFile, st_size = 10485760, st_mtimeMs = 1696544000000\<rparr>
   \<and> js_mul (demoP []) (js_mul (demoP []) 40 86400) 1000 = 3456000000
   \<and> js_sub (demoP []) (now demoClock) 1696544000000 = 3456000000
   \<and> visitEntry (demoP []) demoCfg demoClock demoFiles \<lparr>minBytes = 52428800, olderDays = 30\<rparr>
        ''User Library cache'' ''user-caches'' ''/Users/u/Library/Caches'' ([], [bigItem])
        \<lparr>d_name = ''small.bin'', d_type = RegularFile\<rparr>
       = ([], [bigItem])
   \<and> visitEntry (demoP []) demoCfg demoClock demoFiles \<lparr>minBytes = 10485760, olderDays = 40\<rparr>
        ''User Library cache'' ''user-caches'' ''/Users/u/Library/Caches'' ([], [bigItem])
        \<lparr>d_name = ''small.bin'', d_type = RegularFile\<rparr>
       = ([], [bigItem, smallItem])
   \<and> visitEntry (demoP []) demoCfg demoClock demoFiles \<lparr>minBytes = 10485761, olderDays = 40\<rparr>
        ''User Library cache'' ''user-caches'' ''/Users/u/Library/Caches'' ([], [bigItem])
        \<lparr>d_name = ''small.bin'', d_type = RegularFile\<rparr>
       = ([], [bigItem])
   \<and> visitEntry (demoP []) demoCfg demoClock demoFiles \<lparr>minBytes = 10485760, olderDays = 41\<rparr>
        ''User Library cache'' ''user-caches'' ''/Users/u/Library/Caches'' ([], [bigItem])
        \<lparr>d_name = ''small.bin'', d_type = RegularFile\<rparr>
       = ([], [bigItem])"
proof -
  let ?ent = "\<lparr>d_name = ''small.bin'', d_type = RegularFile\<rparr>"
  let ?st = "\<lparr>st_type = RegularFile, st_size = 10485760, st_mtimeMs = 1696544000000\<rparr>"
  have h: "ensureHomeScoped demoCfg (path_join [''/Users/u/Library/Caches'', d_name ?ent])
      \<and> \<not> isDenyListed demoCfg (path_join [''/Users/u/Library/Caches'', d_name ?ent])
      \<and> lstat (demoP []) demoFiles (path_join [''/Users/u/Library/Caches'', d_name ?ent]) = Some ?st
      \<and> st_type ?st = RegularFile"
    by (simp add: demo_entry_paths demo_policy demo_lstat)
  have a: "visitEntry (demoP []) demoCfg demoClock demoFiles \<lparr>minBytes = 52428800, olderDays = 30\<rparr>
        ''User Library cache'' ''user-caches'' ''/Users/u/Library/Caches'' ([], [bigItem]) ?ent
       = ([], [bigItem])"
    using scan_filters_inclusive_bounds[where cfg = demoCfg and current = "''/Users/u/Library/Caches''"
        and ent = ?ent and P = "demoP []" and fs = demoFiles and st = ?st
        and opts = "\<lparr>minBytes = 52428800, olderDays = 30\<rparr>" and clk = demoClock
        and rsn = "''User Library cache''" and cat = "''user-caches''" and stack = "[]"
        and acc = "[bigItem]"] h
    by (simp add: demo_clock demo_arith)
  have b: "visitEntry (demoP []) demoCfg demoClock demoFiles \<lparr>minBytes = 10485760, olderDays = 40\<rparr>
        ''User Library cache'' ''user-caches'' ''/Users/u/Library/Caches'' ([], [bigItem]) ?ent
       = ([], [bigItem, smallItem])"
    using scan_filters_inclusive_bounds[where cfg = demoCfg and current = "''/Users/u/Library/Caches''"
        and ent = ?ent and P = "demoP []" and fs = demoFiles and st = ?st
        and opts = "\<lparr>minBytes = 10485760, olderDays = 40\<rparr>" and clk = demoClock
        and rsn = "''User Library cache''" and cat = "''user-caches''" and stack = "[]"
        and acc = "[bigItem]"] h
    by (simp add: demo_clock demo_arith demo_entry_paths scanItem_def smallItem_def)
  have c: "visitEntry (demoP []) demoCfg demoClock demoFiles \<lparr>minBytes = 10485761, olderDays = 40\<rparr>
        ''User Library cache'' ''user-caches'' ''/Users/u/Library/Caches'' ([], [bigItem]) ?ent
       = ([], [bigItem])"
    using scan_filters_inclusive_bounds[where cfg = demoCfg and current = "''/Users/u/Library/Caches''"
        and ent = ?ent and P = "demoP []" and fs = demoFiles and st = ?st
        and opts = "\<lparr>minBytes = 10485761, olderDays = 40\<rparr>" and clk = demoClock
        and rsn = "''User Library cache''" and cat = "''user-caches''" and stack = "[]"
        and acc = "[bigItem]"] h
    by (simp add: demo_clock demo_arith)
  have d: "visitEntry (demoP []) demoCfg demoClock demoFiles \<lparr>minBytes = 10485760, olderDays = 41\<rparr>
        ''User Library cache'' ''user-caches'' ''/Users/u/Library/Caches'' ([], [bigItem]) ?ent
       = ([], [bigItem])"
    using scan_filters_inclusive_bounds[where cfg = demoCfg and current = "''/Users/u/Library/Caches''"
        and ent = ?ent and P = "demoP []" and fs = demoFiles and st = ?st
        and opts = "\<lparr>minBytes = 10485760, olderDays = 41\<rparr>" and clk = demoClock
        and rsn = "''User Library cache''" and cat = "''user-caches''" and stack = "[]"
        and acc = "[bigItem]"] h
    by (simp add: demo_clock demo_arith)
  have e: "effectiveOpts (parseQuery (demoP []) demoQuery) = \<lparr>minBytes = 52428800, olderDays = 30\<rparr>"
    by (simp add: demo_parse effectiveOpts_def)
  have m: "js_mul (demoP []) (js_mul (demoP []) 40 86400) 1000 = 3456000000"
    "js_sub (demoP []) (now demoClock) 1696544000000 = 3456000000"
    by (simp_all add: demo_arith demo_clock)
  have its: "items demoReport = [bigItem]" by (simp add: demoReport_def)
  show ?thesis
    using a b c d e m its demo_scan[of "[]"] demo_lstat(2)[of "[]"] by blast
qed

theorem unset_filter_counterexample:
  "noQuery ''minSize'' = QAbsent \<and> noQuery ''olderThan'' = QAbsent
   \<and> readdir (demoP []) demoFiles ''/Users/u/Library/Caches''
       = Some [\<lparr>d_name = ''big.bin'', d_type = RegularFile\<rparr>,
               \<lparr>d_name = ''small.bin'', d_type = RegularFile\<rparr>,
               \<lparr>d_name = ''lnk'', d_type = SymbolicLink\<rparr>]
   \<and> lstat (demoP []) demoFiles ''/Users/u/Library/Caches/small.bin''
       = Some \<lparr>st_type = RegularFile, st_size = 10485760, st_mtimeMs = 1696544000000\<rparr>
   \<and> scanHandler (Suc 0) (demoP []) demoCfg demoClock demoFiles Map.empty noQuery
       = Some (defaultReport, [scanKey (parseQuery (demoP []) noQuery) \<mapsto> (now demoClock, defaultReport)])
   \<and> items defaultReport = [bigItem]"
  using demo_readdir_caches[of "[]"] demo_lstat(2)[of "[]"] default_scan[of "[]"]
  by (simp add: noQuery_def defaultReport_def)

section \<open>The deny-list at a segment boundary\<close>

text \<open>
  Claim C5. For the home directory \<open>/Users/u\<close>, the path \<open>/Users/u/PicturesBackup/f\<close> lies
  under no deny-listed subtree: the specification's segment-boundary check and the shell
  script's \<open>deny_listed\<close> both say so. The server's \<open>isDenyListed\<close> says it is deny-listed,
  because it tests \<open>startsWith\<close> against \<open>/Users/u/Pictures\<close> with no separator after it.
\<close>

theorem sibling_of_pictures_is_denied:
  "isDenyListed demoCfg ''/Users/u/PicturesBackup/f''
   \<and> \<not> spec_isDenyListed demoCfg ''/Users/u/PicturesBackup/f''
   \<and> \<not> deny_listed ''/Users/u'' ''/Users/u/PicturesBackup/f''"
  by (simp add: deny_defs spec_isDenyListed_def spec_deny_roots_def in_subtree_def deny_listed_def
      path_defs demoCfg_def)

section \<open>Plain-text plans\<close>

lemma apply_path_log:
  "\<exists>ev. sh_log (apply_path S home_dir ts dry_run use_trash s p) = sh_log s @ [ev] \<and> event_path ev = p"
  by (auto simp: apply_path_def Let_def split: prod.splits bool.splits)

lemma apply_paths_log:
  "map event_path (sh_log (foldl (apply_path S home_dir ts dry_run use_trash) s ps))
   = map event_path (sh_log s) @ ps"
proof (induction ps arbitrary: s)
  case Nil
  then show ?case by simp
next
  case (Cons p ps)
  obtain ev where "sh_log (apply_path S home_dir ts dry_run use_trash s p) = sh_log s @ [ev]"
    "event_path ev = p"
    using apply_path_log[of S home_dir ts dry_run use_trash s p] by blast
  then show ?case using Cons.IH[of "apply_path S home_dir ts dry_run use_trash s p"] by simp
qed

lemma plan_list_text:
  "\<not> list_ex (includes_str (dq # ''items'' @ [dq])) plan_lines \<Longrightarrow>
   plan_list plan_lines = filter (\<lambda>l. \<not> blank_line l \<and> \<not> comment_line l) plan_lines"
  by (auto simp: plan_list_def intro: filter_cong)

text \<open>
  Claim C9 (amended). The command-line entry point \<open>apply_plan\<close> accepts a plain-text plan:
  when no line of the file contains \<open>"items"\<close>, the paths it processes are the file's lines
  but those that are blank and those whose first non-blank character is \<open>#\<close>, and it
  processes each of them, in order, with one log line per path. The server's apply handler
  accepts JSON only: a body that \<open>JSON.parse\<close> rejects is answered with status 400, and
  nothing is processed.
\<close>

theorem text_plan_accepted_by_cli_only:
  "(\<not> list_ex (includes_str (dq # ''items'' @ [dq])) plan_lines \<longrightarrow>
      plan_list plan_lines = filter (\<lambda>l. \<not> blank_line l \<and> \<not> comment_line l) plan_lines
      \<and> map event_path (butlast (sh_log (apply_plan S home_dir ts dry_run use_trash fs (Some plan_lines))))
          = plan_list plan_lines
      \<and> last (sh_log (apply_plan S home_dir ts dry_run use_trash fs (Some plan_lines)))
          = CompleteLog dry_run (sh_count (apply_plan S home_dir ts dry_run use_trash fs (Some plan_lines)))
              (sh_total (apply_plan S home_dir ts dry_run use_trash fs (Some plan_lines))))
   \<and> (JSON_parse P body = None \<longrightarrow>
        applyHandler P cfg clk fs' cache rq body
          = \<lparr>response = BadRequest ''Invalid plan JSON; expected { items: [ { path, category } ] }'',
             fs_after = fs', cache_after = cache, fs_calls = []\<rparr>)"
proof -
  have cli: "map event_path (butlast (sh_log (apply_plan S home_dir ts dry_run use_trash fs (Some plan_lines))))
          = plan_list plan_lines
      \<and> last (sh_log (apply_plan S home_dir ts dry_run use_trash fs (Some plan_lines)))
          = CompleteLog dry_run (sh_count (apply_plan S home_dir ts dry_run use_trash fs (Some plan_lines)))
              (sh_total (apply_plan S home_dir ts dry_run use_trash fs (Some plan_lines)))"
    by (simp add: apply_plan_def Let_def apply_paths_log)
  have js: "applyHandler P cfg clk fs' cache rq body
          = \<lparr>response = BadRequest ''Invalid plan JSON; expected { items: [ { path, category } ] }'',
             fs_after = fs', cache_after = cache, fs_calls = []\<rparr>"
    if "JSON_parse P body = None"
    by (rule applyHandler_rejects) (simp add: readJsonBody_def planItems_def that)
  show ?thesis using cli js plan_list_text by blast
qed

lemma demo_sh:
  "test_e demoS demoFiles ''/Users/u/Library/Caches/small.bin''"
  "stat_z demoS demoFiles ''/Users/u/Library/Caches/small.bin'' = Some 10485760"
  by (simp_all add: demoS_def demoFiles_def demo_follow_def demo_target_def demo_node_def
      demo_canon_def demo_stats_def)

lemma demo_sh_policy:
  "ensure_home_scope ''/Users/u'' ''/Users/u/Library/Caches/small.bin''"
  "\<not> deny_listed ''/Users/u'' ''/Users/u/Library/Caches/small.bin''"
  by (simp_all add: ensure_home_scope_def deny_listed_def)

lemma text_plan_lines:
  "\<not> list_ex (includes_str (dq # ''items'' @ [dq])) textPlanLines"
  "plan_list textPlanLines = [''/Users/u/Library/Caches/small.bin'']"
  by (simp_all add: plan_list_def textPlanLines_def dq_def blank_line_def comment_line_def is_space_def)

lemma text_plan_dry_run:
  "apply_plan demoS ''/Users/u'' ''20231114-221320'' True True demoFiles (Some textPlanLines)
   = \<lparr>sh_fs = demoFiles, sh_total = 10485760, sh_count = 1,
      sh_log = [DryLog ''/Users/u/Library/Caches/small.bin'' 10485760, CompleteLog True 1 10485760]\<rparr>"
  by (simp add: apply_plan_def text_plan_lines apply_path_def demo_sh demo_sh_policy sh_plus_def Let_def)

theorem text_plan_accepted_by_cli_only_witness:
  "\<not> list_ex (includes_str (dq # ''items'' @ [dq])) textPlanLines
   \<and> plan_list textPlanLines = [''/Users/u/Library/Caches/small.bin'']
   \<and> sh_log (apply_plan demoS ''/Users/u'' ''20231114-221320'' True True demoFiles (Some textPlanLines))
       = [DryLog ''/Users/u/Library/Caches/small.bin'' 10485760, CompleteLog True 1 10485760]
   \<and> JSON_parse (demoP demoBodies) textPlan = None
   \<and> applyHandler (demoP demoBodies) demoCfg demoClock demoFiles Map.empty noQuery textPlan
       = \<lparr>response = BadRequest ''Invalid plan JSON; expected { items: [ { path, category } ] }'',
          fs_after = demoFiles, cache_after = Map.empty, fs_calls = []\<rparr>"
proof -
  have np: "JSON_parse (demoP demoBodies) textPlan = None"
    by (simp add: demoP_sel demoBodies_def textPlan_def docsPlan_def gonePlan_def cachesPlan_def linkPlan_def
        mailPlan_def nullPlan_def brokenPlan_def)
  from text_plan_accepted_by_cli_only[of textPlanLines demoS "''/Users/u''" "''20231114-221320''" True True
      demoFiles "demoP demoBodies" textPlan demoCfg demoClock demoFiles Map.empty noQuery]
  show ?thesis using np text_plan_lines text_plan_dry_run by simp
qed

theorem text_plan_rejected_counterexample:
  "JSON_parse (demoP demoBodies) textPlan = None
   \<and> readJsonBody (demoP demoBodies) textPlan = JNull
   \<and> response (applyHandler (demoP demoBodies) demoCfg demoClock demoFiles Map.empty noQuery textPlan)
       = BadRequest ''Invalid plan JSON; expected { items: [ { path, category } ] }''
   \<and> fs_calls (applyHandler (demoP demoBodies) demoCfg demoClock demoFiles Map.empty noQuery textPlan) = []"
proof -
  have "JSON_parse (demoP demoBodies) textPlan = None"
    by (simp add: demoP_sel demoBodies_def textPlan_def docsPlan_def gonePlan_def cachesPlan_def linkPlan_def
        mailPlan_def nullPlan_def brokenPlan_def)
  then show ?thesis by (simp add: demo_body(5) applyHandler_def planItems_def)
qed

end
